theory Spec2Isabelle
  imports Complex_Main "HOL-Library.Word"
begin

unbundle bit_operations_syntax

section \<open>Numbers and typed arrays\<close>

text \<open>
  The renderer computes with JavaScript numbers, IEEE-754 binary64. A finite number is
  modelled as a real; NaN, negative zero and the overflow of an operation to an infinity are
  outside the model. The projection of \<open>Math.ts\<close> (\<open>mat4Perspective\<close>, \<open>mat4MulVec4\<close>,
  \<open>projectVertex\<close>, \<open>transformTriangleToScreen\<close>) is modelled with the rounding of every
  operation written out, by \<open>fl64\<close> below; the arithmetic of the shading, of the snap and of
  the scanline fill is that of the reals. The depth buffer is a \<open>Float32Array\<close>: a number
  stored into it is narrowed to the nearest binary32 value, which \<open>fround\<close> below writes out.
\<close>

text \<open>
  Rounding to nearest, ties to even, in a binary format with \<open>p\<close> bits of precision and
  the smallest exponent \<open>emin\<close>: \<open>roundHalfEven\<close> rounds to an integer, \<open>binaryExponent\<close> is
  the exponent of the binade of \<open>v\<close> (that of the subnormals below \<open>2 ^ emin\<close>),
  \<open>binaryQuantum\<close> the distance between neighbouring values of the format there.
\<close>

definition roundHalfEven :: "real \<Rightarrow> int" where
  "roundHalfEven t =
     (let f = \<lfloor>t\<rfloor>; d = t - of_int f
      in if d < 1 / 2 then f else if 1 / 2 < d then f + 1 else if even f then f else f + 1)"

definition binaryExponent :: "int \<Rightarrow> real \<Rightarrow> int" where
  "binaryExponent emin v = max emin \<lfloor>log 2 \<bar>v\<bar>\<rfloor>"

definition binaryQuantum :: "nat \<Rightarrow> int \<Rightarrow> real \<Rightarrow> real" where
  "binaryQuantum p emin v = 2 powi (binaryExponent emin v - int p + 1)"

definition roundBinary :: "nat \<Rightarrow> int \<Rightarrow> real \<Rightarrow> real" where
  "roundBinary p emin v =
     (if v = 0 then 0
      else of_int (roundHalfEven (v / binaryQuantum p emin v)) * binaryQuantum p emin v)"

text \<open>
  The result of an arithmetic operation on doubles is its exact result rounded to binary64:
  \<open>a * b\<close> in the source is \<open>fl64 (a * b)\<close> here.
\<close>

definition fl64 :: "real \<Rightarrow> real" where
  "fl64 v = roundBinary 53 (- 1022) v"

text \<open>
  The content of a depth cell: a binary32 value or one of the two infinities. \<open>clearZ\<close> writes
  \<open>Number.POSITIVE_INFINITY\<close>; a finite number whose binary32 rounding reaches \<open>2 ^ 128\<close> in
  magnitude is stored as an infinity.
\<close>

datatype depth = Depth real | Infinity | NegInfinity

text \<open>The value that \<open>zBuffer[idx] = v\<close> stores (\<open>Math.fround v\<close>).\<close>

definition fround :: "real \<Rightarrow> depth" where
  "fround v =
     (let m = roundBinary 24 (- 126) v
      in if 2 ^ 128 \<le> m then Infinity else if m \<le> - (2 ^ 128) then NegInfinity else Depth m)"

text \<open>The comparison \<open>z >= cell\<close> of a finite number with the content of a depth cell.\<close>

fun ge_depth :: "real \<Rightarrow> depth \<Rightarrow> bool" where
  "ge_depth v (Depth d) = (d \<le> v)"
| "ge_depth v Infinity = False"
| "ge_depth v NegInfinity = True"

fun lt_depth :: "real \<Rightarrow> depth \<Rightarrow> bool" where
  "lt_depth v (Depth d) = (v < d)"
| "lt_depth v Infinity = True"
| "lt_depth v NegInfinity = False"

text \<open>
  A typed array (\<open>Float32Array\<close>, \<open>Uint32Array\<close>) has a fixed length. An index expression is a
  number: only an integer in \<open>[0, length)\<close> names a cell. A read anywhere else gives
  \<open>undefined\<close> (\<open>None\<close>), a write anywhere else is ignored; neither raises.
\<close>

definition typedIndex :: "'a list \<Rightarrow> real \<Rightarrow> nat option" where
  "typedIndex xs i =
     (if of_int \<lfloor>i\<rfloor> = i \<and> 0 \<le> i \<and> i < real (length xs) then Some (nat \<lfloor>i\<rfloor>) else None)"

definition typedGet :: "'a list \<Rightarrow> real \<Rightarrow> 'a option" where
  "typedGet xs i = (case typedIndex xs i of None \<Rightarrow> None | Some k \<Rightarrow> Some (xs ! k))"

definition typedSet :: "'a list \<Rightarrow> real \<Rightarrow> 'a \<Rightarrow> 'a list" where
  "typedSet xs i v = (case typedIndex xs i of None \<Rightarrow> xs | Some k \<Rightarrow> xs[k := v])"

text \<open>\<open>ToInt32\<close>, as applied by \<open>v | 0\<close>, \<open>v << n\<close> and \<open>v >> n\<close>: truncate towards zero, wrap to 32 bits.\<close>

definition toInt32 :: "real \<Rightarrow> 32 word" where
  "toInt32 v = word_of_int (if v < 0 then \<lceil>v\<rceil> else \<lfloor>v\<rfloor>)"

text \<open>
  The bit operators convert their left operand with \<open>ToInt32\<close> and give a signed 32-bit
  integer back: \<open>v << n\<close>, \<open>v >> n\<close> (arithmetic shift) and \<open>v & m\<close>.
\<close>

definition jsShiftLeft :: "real \<Rightarrow> nat \<Rightarrow> real" where
  "jsShiftLeft v n = real_of_int (sint (push_bit n (toInt32 v)))"

definition jsShiftRight :: "real \<Rightarrow> nat \<Rightarrow> real" where
  "jsShiftRight v n = real_of_int (sint (signed_drop_bit n (toInt32 v)))"

definition jsBitAnd :: "real \<Rightarrow> 32 word \<Rightarrow> real" where
  "jsBitAnd v m = real_of_int (sint (toInt32 v AND m))"

text \<open>\<open>Math.round\<close>: the nearest integer, a tie going up.\<close>

definition mathRound :: "real \<Rightarrow> real" where
  "mathRound v = of_int \<lfloor>v + 1 / 2\<rfloor>"

section \<open>Math.ts: vectors, matrices, projection\<close>

record Vec3 =
  x :: real
  y :: real
  z :: real

record Vec4 = Vec3 +
  w :: real

type_synonym Mat4 = "real list"

record DirectionalLight =
  direction :: Vec3
  lightColor :: Vec3
  intensity :: real

record Camera =
  position :: Vec3
  up :: Vec3
  speed :: real
  yaw :: real
  pitch :: real

text \<open>
  A \<open>ScreenVertex\<close> has the fields of a \<open>Vec3\<close> and more; the source passes it where a \<open>Vec3\<close>
  is expected (\<open>isTriangleClipped\<close>), which the record extension allows too. An optional
  field is an \<open>option\<close>.
\<close>

record ScreenVertex = Vec3 +
  recipW :: real
  color :: "(real \<times> real \<times> real) option"
  normal :: "Vec3 option"
  uv :: "(real \<times> real) option"

definition mat4Identity :: Mat4 where
  "mat4Identity = [ 1, 0, 0, 0,
                    0, 1, 0, 0,
                    0, 0, 1, 0,
                    0, 0, 0, 1 ]"

text \<open>A sum of four products, evaluated from the left: three additions and four products round.\<close>

definition mat4MulVec4 :: "Mat4 \<Rightarrow> Vec4 \<Rightarrow> Vec4" where
  "mat4MulVec4 m v =
     \<lparr> x = fl64 (fl64 (fl64 (fl64 (m ! 0 * x v) + fl64 (m ! 1 * y v)) + fl64 (m ! 2 * z v))
                 + fl64 (m ! 3 * w v)),
       y = fl64 (fl64 (fl64 (fl64 (m ! 4 * x v) + fl64 (m ! 5 * y v)) + fl64 (m ! 6 * z v))
                 + fl64 (m ! 7 * w v)),
       z = fl64 (fl64 (fl64 (fl64 (m ! 8 * x v) + fl64 (m ! 9 * y v)) + fl64 (m ! 10 * z v))
                 + fl64 (m ! 11 * w v)),
       w = fl64 (fl64 (fl64 (fl64 (m ! 12 * x v) + fl64 (m ! 13 * y v)) + fl64 (m ! 14 * z v))
                 + fl64 (m ! 15 * w v)) \<rparr>"

text \<open>
  \<open>Math.tan\<close> is taken as correctly rounded; nothing below depends on its value. The product
  \<open>2 * far * near\<close> is \<open>(2 * far) * near\<close>.
\<close>

definition mat4Perspective :: "real \<Rightarrow> real \<Rightarrow> real \<Rightarrow> real \<Rightarrow> Mat4" where
  "mat4Perspective fovy aspect near far =
     (let f = fl64 (1 / fl64 (tan (fl64 (fovy / 2))));
          nf = fl64 (1 / fl64 (near - far))
      in [ fl64 (f / aspect), 0, 0, 0,
           0, f, 0, 0,
           0, 0, fl64 (fl64 (far + near) * nf), fl64 (fl64 (fl64 (2 * far) * near) * nf),
           0, 0, -1, 0 ])"

text \<open>The object \<open>projectVertex\<close> returns; \<open>null\<close> is \<open>None\<close>.\<close>

record Projected =
  screenX :: real
  screenY :: real
  screenZ :: real
  ndc :: Vec3
  clipW :: real

definition projectVertex :: "Vec3 \<Rightarrow> Mat4 \<Rightarrow> real \<Rightarrow> real \<Rightarrow> Projected option" where
  "projectVertex pos mvp wd ht =
     (let v4 = \<lparr> x = x pos, y = y pos, z = z pos, w = 1 \<rparr>;
          clip = mat4MulVec4 mvp v4
      in if w clip = 0 then None
         else
           let nd = \<lparr> x = fl64 (x clip / w clip), y = fl64 (y clip / w clip),
                      z = fl64 (z clip / w clip) \<rparr>;
               sx = fl64 (fl64 (fl64 (x nd * 0.5) + 0.5) * wd);
               sy = fl64 (fl64 (1.0 - fl64 (fl64 (y nd * 0.5) + 0.5)) * ht);
               sz = fl64 (fl64 (z nd * 0.5) + 0.5)
           in Some \<lparr> screenX = sx, screenY = sy, screenZ = sz, ndc = nd, clipW = w clip \<rparr>)"

text \<open>One entry of the array that \<open>transformTriangleToScreen\<close> returns.\<close>

definition toScreenVertex :: "Projected \<Rightarrow> ScreenVertex" where
  "toScreenVertex p =
     \<lparr> x = screenX p, y = screenY p, z = screenZ p, recipW = fl64 (1 / clipW p),
       color = None, normal = None, uv = None \<rparr>"

definition transformTriangleToScreen ::
  "Vec3 \<Rightarrow> Vec3 \<Rightarrow> Vec3 \<Rightarrow> Mat4 \<Rightarrow> real \<Rightarrow> real \<Rightarrow> (ScreenVertex \<times> ScreenVertex \<times> ScreenVertex) option"
where
  "transformTriangleToScreen a b c mvp wd ht =
     (let pa = projectVertex a mvp wd ht;
          pb = projectVertex b mvp wd ht;
          pc = projectVertex c mvp wd ht
      in if pa = None \<or> pb = None \<or> pc = None then None
         else Some (toScreenVertex (the pa), toScreenVertex (the pb), toScreenVertex (the pc)))"

text \<open>The local function \<open>outOfBounds\<close> of \<open>isTriangleClipped\<close>.\<close>

definition outOfBounds :: "'a Vec3_scheme \<Rightarrow> real \<Rightarrow> real \<Rightarrow> bool" where
  "outOfBounds v wd ht = (x v < 0 \<or> x v \<ge> wd \<or> y v < 0 \<or> y v \<ge> ht)"

definition isTriangleClipped ::
  "'a Vec3_scheme \<Rightarrow> 'b Vec3_scheme \<Rightarrow> 'c Vec3_scheme \<Rightarrow> real \<Rightarrow> real \<Rightarrow> bool" where
  "isTriangleClipped v0 v1 v2 wd ht =
     (if outOfBounds v0 wd ht \<and> outOfBounds v1 wd ht \<and> outOfBounds v2 wd ht then True else False)"

definition getScreenVertex ::
  "ScreenVertex \<Rightarrow> nat \<Rightarrow> nat \<Rightarrow> real list option \<Rightarrow> real list option \<Rightarrow> ScreenVertex" where
  "getScreenVertex svert vi uvIdx normals uvs =
     (let nrm = (case normals of
                   None \<Rightarrow> None
                 | Some ns \<Rightarrow> if length ns > vi + 2
                              then Some \<lparr> x = ns ! vi, y = ns ! (vi + 1), z = ns ! (vi + 2) \<rparr>
                              else None);
          tex = (case uvs of
                   None \<Rightarrow> None
                 | Some us \<Rightarrow> if length us > uvIdx + 1
                              then Some (us ! uvIdx, us ! (uvIdx + 1))
                              else None)
      in \<lparr> x = x svert, y = y svert, z = z svert, recipW = recipW svert,
           color = None, normal = nrm, uv = tex \<rparr>)"

definition vsub :: "Vec3 \<Rightarrow> Vec3 \<Rightarrow> Vec3" where
  "vsub a b = \<lparr> x = x a - x b, y = y a - y b, z = z a - z b \<rparr>"

definition vcross :: "Vec3 \<Rightarrow> Vec3 \<Rightarrow> Vec3" where
  "vcross a b = \<lparr> x = y a * z b - z a * y b, y = z a * x b - x a * z b, z = x a * y b - y a * x b \<rparr>"

text \<open>\<open>Math.hypot\<close> of three numbers.\<close>

definition hypot3 :: "real \<Rightarrow> real \<Rightarrow> real \<Rightarrow> real" where
  "hypot3 a b c = sqrt (a * a + b * b + c * c)"

text \<open>\<open>Math.hypot(..) || 1\<close>: the right operand replaces a length of zero.\<close>

definition vlen :: "Vec3 \<Rightarrow> real" where
  "vlen a = (let h = hypot3 (x a) (y a) (z a) in if h = 0 then 1 else h)"

definition vnorm :: "Vec3 \<Rightarrow> Vec3" where
  "vnorm a = (let L = vlen a in \<lparr> x = x a / L, y = y a / L, z = z a / L \<rparr>)"

definition vdot :: "Vec3 \<Rightarrow> Vec3 \<Rightarrow> real" where
  "vdot a b = x a * x b + y a * y b + z a * z b"

definition computeBlinnPhongLighting ::
  "Vec3 \<Rightarrow> Vec3 \<Rightarrow> Vec3 \<Rightarrow> DirectionalLight option \<Rightarrow> Vec3" where
  "computeBlinnPhongLighting vertex nrm viewDir light =
     (let ambient = 0.15;
          (diffuseIntensity, specularIntensity) =
            (case light of
               None \<Rightarrow> (0, 0)
             | Some l \<Rightarrow>
                 let ldir = vnorm (direction l);
                     toLight = \<lparr> x = - x ldir, y = - y ldir, z = - z ldir \<rparr>;
                     normalizedNormal = vnorm nrm;
                     halfwayDir = vnorm \<lparr> x = x viewDir + x toLight,
                                         y = y viewDir + y toLight,
                                         z = z viewDir + z toLight \<rparr>;
                     specAngle = max 0 (vdot normalizedNormal halfwayDir)
                 in (max 0 (vdot normalizedNormal toLight) * intensity l,
                     specAngle ^ 16 * intensity l));
          diff = 1.0 - ambient;
          k = ambient + diff * diffuseIntensity + specularIntensity
      in \<lparr> x = max 0 (min 255 (200 * k)),
           y = max 0 (min 255 (120 * k)),
           z = max 0 (min 255 (60 * k)) \<rparr>)"

definition snapVertexToGrid :: "ScreenVertex \<Rightarrow> real \<Rightarrow> ScreenVertex" where
  "snapVertexToGrid svert gridSize =
     \<lparr> x = mathRound (x svert / gridSize) * gridSize,
       y = mathRound (y svert / gridSize) * gridSize,
       z = z svert, recipW = recipW svert,
       color = None, normal = normal svert, uv = uv svert \<rparr>"

section \<open>Renderer.ts: buffers\<close>

datatype Shading = Flat | BlinnPhong | Wireframe

text \<open>\<open>RendererOptions\<close>: an absent \<open>shading\<close> is \<open>None\<close>, an absent \<open>snapVertices\<close> is false.\<close>

record RendererOptions =
  shading :: "Shading option"
  snapVertices :: bool

record Renderer =
  width :: nat
  height :: nat
  littleEndian :: bool
  data32 :: "32 word list"
  zBuffer :: "depth list"
  mainCamera :: "Camera option"
  mainDirectionalLight :: "DirectionalLight option"
  options :: RendererOptions

definition clearZ :: "Renderer \<Rightarrow> Renderer" where
  "clearZ r = r \<lparr> zBuffer := map (\<lambda>_. Infinity) (zBuffer r) \<rparr>"

definition packRGBA :: "Renderer \<Rightarrow> 32 word \<Rightarrow> 32 word \<Rightarrow> 32 word \<Rightarrow> 32 word \<Rightarrow> 32 word" where
  "packRGBA r cr cg cb ca =
     (if littleEndian r
      then push_bit 24 ca OR push_bit 16 cb OR push_bit 8 cg OR cr
      else push_bit 24 cr OR push_bit 16 cg OR push_bit 8 cb OR ca)"

definition setPixel :: "Renderer \<Rightarrow> real \<Rightarrow> real \<Rightarrow> real \<Rightarrow> real \<Rightarrow> real \<Rightarrow> real \<Rightarrow> Renderer" where
  "setPixel r px py cr cg cb ca =
     (if px < 0 \<or> px \<ge> real (width r) \<or> py < 0 \<or> py \<ge> real (height r) then r
      else
        let idx = py * real (width r) + px
        in r \<lparr> data32 := typedSet (data32 r) idx
                   (packRGBA r (toInt32 cr) (toInt32 cg) (toInt32 cb) (toInt32 ca)) \<rparr>)"

text \<open>
  \<open>depthTest\<close> returns its boolean together with the renderer after the call. When the index
  names no cell the read is \<open>undefined\<close>, \<open>z >= undefined\<close> is false, the store is ignored
  and the call returns true. The comparison is between \<open>z\<close> and the stored binary32 value,
  both as doubles, so it is exact; the store narrows \<open>z\<close> to binary32.
\<close>

definition depthTest :: "Renderer \<Rightarrow> real \<Rightarrow> real \<Rightarrow> real \<Rightarrow> bool \<times> Renderer" where
  "depthTest r px py pz =
     (let idx = py * real (width r) + px
      in if (case typedGet (zBuffer r) idx of None \<Rightarrow> False | Some d \<Rightarrow> ge_depth pz d)
         then (False, r)
         else (True, r \<lparr> zBuffer := typedSet (zBuffer r) idx (fround pz) \<rparr>))"

text \<open>The cell of pixel \<open>(px, py)\<close> of a \<open>width \<times> height\<close> buffer.\<close>

definition cellAt :: "Renderer \<Rightarrow> nat \<Rightarrow> nat \<Rightarrow> depth" where
  "cellAt r px py = zBuffer r ! (py * width r + px)"

text \<open>
  The constructor, as far as the buffers go: both have one cell per pixel, the pixel store
  starts zeroed, the depth store is cleared; no camera and no light are set yet.
\<close>

definition newRenderer :: "nat \<Rightarrow> nat \<Rightarrow> bool \<Rightarrow> RendererOptions \<Rightarrow> Renderer" where
  "newRenderer wd ht le opts =
     clearZ \<lparr> width = wd, height = ht, littleEndian = le,
              data32 = replicate (wd * ht) 0,
              zBuffer = replicate (wd * ht) (Depth 0),
              mainCamera = None, mainDirectionalLight = None,
              options = opts \<rparr>"

definition setCamera :: "Renderer \<Rightarrow> Camera \<Rightarrow> Renderer" where
  "setCamera r camera = r \<lparr> mainCamera := Some camera \<rparr>"

definition setDirectionalLight :: "Renderer \<Rightarrow> DirectionalLight \<Rightarrow> Renderer" where
  "setDirectionalLight r light = r \<lparr> mainDirectionalLight := Some light \<rparr>"

section \<open>Renderer.ts: scanline fill\<close>

record Edge =
  vStart :: ScreenVertex
  vEnd :: ScreenVertex
  dx :: real
  dy :: real
  dz :: real

definition precomputeEdge :: "ScreenVertex \<Rightarrow> ScreenVertex \<Rightarrow> Edge" where
  "precomputeEdge s e =
     \<lparr> vStart = s, vEnd = e, dx = x e - x s, dy = y e - y s, dz = z e - z s \<rparr>"

definition interpolateEdge :: "Edge \<Rightarrow> real \<Rightarrow> real" where
  "interpolateEdge edge py =
     (if dy edge = 0 then x (vStart edge)
      else x (vStart edge) + dx edge * ((py - y (vStart edge)) / dy edge))"

definition interpolateZ :: "Edge \<Rightarrow> Edge \<Rightarrow> Edge \<Rightarrow> real \<Rightarrow> real \<Rightarrow> real \<Rightarrow> real" where
  "interpolateZ edgeAC edgeAB edgeBC px py t =
     z (vStart edgeAC) + (z (vEnd edgeAC) - z (vStart edgeAC)) * t"

text \<open>
  The scanline fill and the line drawing both plot a point with \<open>if (this.depthTest(x, y, z)) this.setPixel(x, y, r, g, b, a)\<close>.
\<close>

definition plotPixel ::
  "real \<Rightarrow> real \<Rightarrow> real \<Rightarrow> real \<Rightarrow> real \<Rightarrow> real \<Rightarrow> real \<Rightarrow> Renderer \<Rightarrow> Renderer" where
  "plotPixel cr cg cb ca px py pz r =
     (case depthTest r px py pz of
        (True, r') \<Rightarrow> setPixel r' px py cr cg cb ca
      | (False, r') \<Rightarrow> r')"

text \<open>The two x-intersections of row \<open>py\<close>, after the swap that puts the smaller first.\<close>

definition spanEnds :: "Edge \<Rightarrow> Edge \<Rightarrow> Edge \<Rightarrow> ScreenVertex \<Rightarrow> int \<Rightarrow> real \<times> real" where
  "spanEnds edgeAC edgeAB edgeBC b py =
     (let x1 = interpolateEdge edgeAC (of_int py);
          x2 = (if of_int py < y b then interpolateEdge edgeAB (of_int py)
                else interpolateEdge edgeBC (of_int py))
      in if x1 > x2 then (x2, x1) else (x1, x2))"

text \<open>The columns \<open>startX .. endX\<close> the inner loop visits in row \<open>py\<close>.\<close>

definition spanColumns :: "nat \<Rightarrow> real \<times> real \<Rightarrow> int list" where
  "spanColumns wd se =
     (let startX = max 0 \<lceil>fst se\<rceil>;
          endX = min (int wd - 1) \<lfloor>snd se\<rfloor>
      in [startX..endX])"

text \<open>One iteration of the outer loop: row \<open>py\<close>.\<close>

definition scanRow ::
  "Edge \<Rightarrow> Edge \<Rightarrow> Edge \<Rightarrow> ScreenVertex \<Rightarrow> Vec3 \<Rightarrow> int \<Rightarrow> Renderer \<Rightarrow> Renderer" where
  "scanRow edgeAC edgeAB edgeBC b col py r =
     (let se = spanEnds edgeAC edgeAB edgeBC b py;
          x1 = fst se; x2 = snd se
      in fold (\<lambda>px r'.
                 let t = (if x2 = x1 then 0 else (of_int px - x1) / (x2 - x1));
                     pz = interpolateZ edgeAC edgeAB edgeBC (of_int px) (of_int py) t
                 in plotPixel (x col) (y col) (z col) 255 (of_int px) (of_int py) pz r')
              (spanColumns (width r) se) r)"

text \<open>The rows \<open>minY .. maxY\<close> the outer loop visits.\<close>

definition scanRows :: "nat \<Rightarrow> ScreenVertex \<Rightarrow> ScreenVertex \<Rightarrow> ScreenVertex \<Rightarrow> int list" where
  "scanRows ht a b c =
     (let minY = max 0 \<lceil>min (y a) (min (y b) (y c))\<rceil>;
          maxY = min (int ht - 1) \<lfloor>max (y a) (max (y b) (y c))\<rfloor>
      in [minY..maxY])"

text \<open>
  \<open>Array.prototype.sort\<close> with the comparator \<open>v1.y - v2.y\<close> is a stable sort by \<open>y\<close>, as
  \<open>sort_key\<close> is.
\<close>

definition drawTriangleScanline ::
  "Renderer \<Rightarrow> ScreenVertex \<Rightarrow> ScreenVertex \<Rightarrow> ScreenVertex \<Rightarrow> Vec3 \<Rightarrow> Renderer" where
  "drawTriangleScanline r v0 v1 v2 col =
     (let sorted = sort_key y [v0, v1, v2];
          a = sorted ! 0; b = sorted ! 1; c = sorted ! 2;
          edgeAC = precomputeEdge a c;
          edgeAB = precomputeEdge a b;
          edgeBC = precomputeEdge b c
      in fold (scanRow edgeAC edgeAB edgeBC b col) (scanRows (height r) a b c) r)"

text \<open>The default value of the parameter \<open>color\<close> of \<open>drawTriangleScanline\<close>.\<close>

definition defaultColor :: Vec3 where
  "defaultColor = \<lparr> x = 200, y = 120, z = 60 \<rparr>"

section \<open>Renderer.ts: line drawing\<close>

text \<open>
  The locals of \<open>drawLine3DEFLA\<close> that the loop only reads (\<open>lineDx\<close>, \<open>lineDy\<close> are the
  source's \<open>dx\<close>, \<open>dy\<close> and \<open>stepX\<close>, \<open>stepY\<close>, \<open>stepZ\<close> its \<open>xs\<close>, \<open>ys\<close>, \<open>zs\<close>), and the variables it updates: the current point \<open>x0, y0, z0\<close>, the
  two accumulators \<open>j1, j2\<close> and the renderer.
\<close>

record EflaLocals =
  longLen :: real
  lineDx :: real
  lineDy :: real
  stepX :: real
  stepY :: real
  stepZ :: real
  decInc1 :: real
  decInc2 :: real

type_synonym EflaVars = "real \<times> real \<times> real \<times> real \<times> real \<times> Renderer"

definition eflaBody :: "EflaLocals \<Rightarrow> real \<Rightarrow> real \<Rightarrow> real \<Rightarrow> real \<Rightarrow> EflaVars \<Rightarrow> EflaVars" where
  "eflaBody l cr cg cb ca v =
     (case v of (x0, y0, z0, j1, j2, r) \<Rightarrow>
        let r1 = plotPixel cr cg cb ca x0 y0 z0 r;
            k1 = j1 + decInc1 l;
            k2 = j2 + decInc2 l
        in if longLen l = lineDx l then
             (x0 + stepX l, y0 + jsShiftRight k1 16 * stepY l, z0 + jsShiftRight k2 16 * stepZ l,
              jsBitAnd k1 0xFFFF, jsBitAnd k2 0xFFFF, r1)
           else if longLen l = lineDy l then
             (x0 + jsShiftRight k1 16 * stepX l, y0 + stepY l, z0 + jsShiftRight k2 16 * stepZ l,
              jsBitAnd k1 0xFFFF, jsBitAnd k2 0xFFFF, r1)
           else
             (x0 + jsShiftRight k1 16 * stepX l, y0 + jsShiftRight k2 16 * stepY l, z0 + stepZ l,
              jsBitAnd k1 0xFFFF, jsBitAnd k2 0xFFFF, r1))"

text \<open>The loop \<open>for (let i = 0; i <= longLen; i++)\<close>, from the counter value \<open>i\<close> on.\<close>

function eflaLoop :: "EflaLocals \<Rightarrow> real \<Rightarrow> real \<Rightarrow> real \<Rightarrow> real \<Rightarrow> int \<Rightarrow> EflaVars \<Rightarrow> EflaVars" where
  "eflaLoop l cr cg cb ca i v =
     (if real_of_int i \<le> longLen l then eflaLoop l cr cg cb ca (i + 1) (eflaBody l cr cg cb ca v)
      else v)"
  by pat_completeness auto
termination
  by (relation "measure (\<lambda>(l, cr, cg, cb, ca, i, v). nat (\<lfloor>longLen l\<rfloor> + 1 - i))")
     (auto simp: le_floor_iff)

definition drawLine3DEFLA ::
  "Renderer \<Rightarrow> real \<Rightarrow> real \<Rightarrow> real \<Rightarrow> real \<Rightarrow> real \<Rightarrow> real \<Rightarrow> real \<Rightarrow> real \<Rightarrow> real \<Rightarrow> real \<Rightarrow> Renderer" where
  "drawLine3DEFLA r x0 y0 z0 x1 y1 z1 cr cg cb ca =
     (let adx = \<bar>x1 - x0\<bar>;
          ady = \<bar>y1 - y0\<bar>;
          adz = \<bar>z1 - z0\<bar>;
          sx = (if x0 < x1 then 1 else - 1);
          sy = (if y0 < y1 then 1 else - 1);
          sz = (if z0 < z1 then 1 else - 1);
          ll = max adx (max ady adz);
          (shortLen1, shortLen2) =
            (if ll = adx then (ady, adz) else if ll = ady then (adx, adz) else (adx, ady));
          d1 = (if shortLen1 = 0 then 0 else jsShiftLeft shortLen1 16 / ll);
          d2 = (if shortLen2 = 0 then 0 else jsShiftLeft shortLen2 16 / ll);
          l = \<lparr> longLen = ll, lineDx = adx, lineDy = ady, stepX = sx, stepY = sy, stepZ = sz,
                decInc1 = d1, decInc2 = d2 \<rparr>
      in case eflaLoop l cr cg cb ca 0 (x0, y0, z0, 0, 0, r) of
           (_, _, _, _, _, r') \<Rightarrow> r')"

section \<open>Renderer.ts: shading and the triangle pipeline\<close>

text \<open>
  Reading a property of \<open>null\<close> raises a \<open>TypeError\<close>: \<open>renderFlatShading\<close> reads
  \<open>this.mainDirectionalLight!.direction\<close>, \<open>renderBlinnPhongShading\<close> reads
  \<open>this.mainCamera!.position\<close>.
\<close>

datatype error = TypeError

definition renderFlatShading ::
  "Renderer \<Rightarrow> ScreenVertex \<Rightarrow> ScreenVertex \<Rightarrow> ScreenVertex \<Rightarrow> Vec3 \<Rightarrow> Vec3 \<Rightarrow> error + Renderer" where
  "renderFlatShading r sv0 sv1 sv2 e1 e2 =
     (case mainDirectionalLight r of
        None \<Rightarrow> Inl TypeError
      | Some light \<Rightarrow>
          let ambient = 0.15;
              ld = direction light;
              ldir = vnorm ld;
              diff = 1.0 - ambient;
              faceNormal = vnorm (vcross e1 e2);
              lightIntensity =
                max 0 (vdot faceNormal \<lparr> x = - x ldir, y = - y ldir, z = - z ldir \<rparr>) * intensity light;
              finalColor = \<lparr> x = max 0 (min 255 (200 * (ambient + diff * lightIntensity))),
                             y = max 0 (min 255 (120 * (ambient + diff * lightIntensity))),
                             z = max 0 (min 255 (60 * (ambient + diff * lightIntensity))) \<rparr>
          in Inr (drawTriangleScanline r sv0 sv1 sv2 finalColor))"

text \<open>
  \<open>renderBlinnPhongShading\<close> reads \<open>normals[0] .. normals[8]\<close> whatever the triangle; the
  model follows it where the array has these nine entries.
\<close>

definition renderBlinnPhongShading ::
  "Renderer \<Rightarrow> ScreenVertex \<Rightarrow> ScreenVertex \<Rightarrow> ScreenVertex \<Rightarrow> Vec3 \<Rightarrow> Vec3 \<Rightarrow> Vec3 \<Rightarrow> real list
     \<Rightarrow> error + Renderer" where
  "renderBlinnPhongShading r sv0 sv1 sv2 v0 v1 v2 normals =
     (case mainCamera r of
        None \<Rightarrow> Inl TypeError
      | Some cam \<Rightarrow>
          let viewDir = vnorm \<lparr> x = - x (position cam), y = - y (position cam), z = - z (position cam) \<rparr>;
              c0 = computeBlinnPhongLighting v0
                     \<lparr> x = normals ! 0, y = normals ! 1, z = normals ! 2 \<rparr> viewDir (mainDirectionalLight r);
              c1 = computeBlinnPhongLighting v1
                     \<lparr> x = normals ! 3, y = normals ! 4, z = normals ! 5 \<rparr> viewDir (mainDirectionalLight r);
              c2 = computeBlinnPhongLighting v2
                     \<lparr> x = normals ! 6, y = normals ! 7, z = normals ! 8 \<rparr> viewDir (mainDirectionalLight r)
          in Inr (drawTriangleScanline r
                    (sv0 \<lparr> color := Some (x c0, y c0, z c0) \<rparr>)
                    (sv1 \<lparr> color := Some (x c1, y c1, z c1) \<rparr>)
                    (sv2 \<lparr> color := Some (x c2, y c2, z c2) \<rparr>)
                    defaultColor))"

text \<open>Lines 341 to 345 of \<open>renderTriangle\<close>: the three vertices snapped to a grid of pitch 5.\<close>

definition snapTriangle ::
  "bool \<Rightarrow> ScreenVertex \<times> ScreenVertex \<times> ScreenVertex \<Rightarrow> ScreenVertex \<times> ScreenVertex \<times> ScreenVertex" where
  "snapTriangle snap sverts =
     (case sverts of (s0, s1, s2) \<Rightarrow>
        if snap then (snapVertexToGrid s0 5, snapVertexToGrid s1 5, snapVertexToGrid s2 5)
        else (s0, s1, s2))"

text \<open>Line 354: twice the signed area of the screen triangle.\<close>

definition area2 :: "'a Vec3_scheme \<Rightarrow> 'b Vec3_scheme \<Rightarrow> 'c Vec3_scheme \<Rightarrow> real" where
  "area2 a b c = (x b - x a) * (y c - y a) - (y b - y a) * (x c - x a)"

text \<open>Lines 348 to 357: the triangle is rejected by the off-screen test or by the back-face test.\<close>

definition clipCullRejects ::
  "ScreenVertex \<times> ScreenVertex \<times> ScreenVertex \<Rightarrow> real \<Rightarrow> real \<Rightarrow> bool" where
  "clipCullRejects sverts wd ht =
     (case sverts of (s0, s1, s2) \<Rightarrow> isTriangleClipped s0 s1 s2 wd ht \<or> area2 s0 s1 s2 > 0)"

text \<open>Lines 331 to 334: the position of the vertex that entry \<open>k\<close> of the index array names.\<close>

definition vertexAt :: "nat list \<Rightarrow> real list \<Rightarrow> nat \<Rightarrow> Vec3" where
  "vertexAt idx pos k =
     (let vi = idx ! k * 3 in \<lparr> x = pos ! vi, y = pos ! (vi + 1), z = pos ! (vi + 2) \<rparr>)"

text \<open>
  The reads of \<open>vertexAt\<close> are those of the source where they are in range, which the mesh
  invariant (every index is below the number of vertices) provides.
\<close>

definition vertexInRange :: "nat list \<Rightarrow> real list \<Rightarrow> nat \<Rightarrow> bool" where
  "vertexInRange idx pos k = (k < length idx \<and> idx ! k * 3 + 2 < length pos)"

definition triangleInRange :: "nat list \<Rightarrow> real list \<Rightarrow> nat \<Rightarrow> bool" where
  "triangleInRange idx pos i =
     (vertexInRange idx pos i \<and> vertexInRange idx pos (i + 1) \<and> vertexInRange idx pos (i + 2))"

text \<open>Lines 359 to 377: everything after the clip and cull tests.\<close>

definition shadeTriangle ::
  "Renderer \<Rightarrow> nat list \<Rightarrow> nat \<Rightarrow> real list \<Rightarrow> real list option \<Rightarrow> Mat4
     \<Rightarrow> Vec3 \<Rightarrow> Vec3 \<Rightarrow> Vec3 \<Rightarrow> ScreenVertex \<times> ScreenVertex \<times> ScreenVertex \<Rightarrow> error + Renderer" where
  "shadeTriangle r idx i normals uvs modelMat v0 v1 v2 sverts =
     (case sverts of (s0, s1, s2) \<Rightarrow>
        let p0w = mat4MulVec4 modelMat \<lparr> x = x v0, y = y v0, z = z v0, w = 1 \<rparr>;
            p1w = mat4MulVec4 modelMat \<lparr> x = x v1, y = y v1, z = z v1, w = 1 \<rparr>;
            p2w = mat4MulVec4 modelMat \<lparr> x = x v2, y = y v2, z = z v2, w = 1 \<rparr>;
            e1 = vsub \<lparr> x = x p1w, y = y p1w, z = z p1w \<rparr> \<lparr> x = x p0w, y = y p0w, z = z p0w \<rparr>;
            e2 = vsub \<lparr> x = x p2w, y = y p2w, z = z p2w \<rparr> \<lparr> x = x p0w, y = y p0w, z = z p0w \<rparr>;
            sv0 = getScreenVertex s0 (idx ! i * 3) (idx ! i * 2) (Some normals) uvs;
            sv1 = getScreenVertex s1 (idx ! (i + 1) * 3) (idx ! (i + 1) * 2) (Some normals) uvs;
            sv2 = getScreenVertex s2 (idx ! (i + 2) * 3) (idx ! (i + 2) * 2) (Some normals) uvs
        in case shading (options r) of
             Some Flat \<Rightarrow> renderFlatShading r sv0 sv1 sv2 e1 e2
           | Some BlinnPhong \<Rightarrow> renderBlinnPhongShading r sv0 sv1 sv2 v0 v1 v2 normals
           | Some Wireframe \<Rightarrow> Inr r
           | None \<Rightarrow> Inr r)"

definition renderTriangle ::
  "Renderer \<Rightarrow> nat list \<Rightarrow> nat \<Rightarrow> real list \<Rightarrow> real list \<Rightarrow> real list option \<Rightarrow> Mat4 \<Rightarrow> Mat4
     \<Rightarrow> error + Renderer" where
  "renderTriangle r idx i pos normals uvs mvp modelMat =
     (let v0 = vertexAt idx pos i;
          v1 = vertexAt idx pos (i + 1);
          v2 = vertexAt idx pos (i + 2)
      in case transformTriangleToScreen v0 v1 v2 mvp (real (width r)) (real (height r)) of
           None \<Rightarrow> Inr r
         | Some projected \<Rightarrow>
             (case snapTriangle (snapVertices (options r)) projected of (s0, s1, s2) \<Rightarrow>
                if isTriangleClipped s0 s1 s2 (real (width r)) (real (height r)) then Inr r
                else if area2 s0 s1 s2 > 0 then Inr r
                else shadeTriangle r idx i normals uvs modelMat v0 v1 v2 (s0, s1, s2)))"

section \<open>Auxiliary notions and example scenes\<close>

text \<open>
  For the analysis of rounding errors: the unit roundoff of binary64; a number whose size
  lies between \<open>2 ^ -k\<close> and \<open>2 ^ k\<close>; and a number that lies between the smallest and the
  largest value of a product of \<open>j\<close> factors \<open>1 + d\<close> divided by a product of \<open>m\<close> such factors,
  each \<open>d\<close> at most the unit roundoff in size.
\<close>

definition unitRoundoff :: real where
  "unitRoundoff = 1 / 2 ^ 53"

definition magnitude :: "int \<Rightarrow> real \<Rightarrow> bool" where
  "magnitude k v = (2 powi (- k) \<le> \<bar>v\<bar> \<and> \<bar>v\<bar> \<le> 2 powi k)"

definition roundingFactor :: "nat \<Rightarrow> nat \<Rightarrow> real \<Rightarrow> bool" where
  "roundingFactor j m r =
     ((1 - unitRoundoff) ^ j / (1 + unitRoundoff) ^ m \<le> r
      \<and> r \<le> (1 + unitRoundoff) ^ j / (1 - unitRoundoff) ^ m)"






text \<open>Two screen vertices at the same position, whatever their other attributes.\<close>

definition samePoint :: "ScreenVertex \<Rightarrow> ScreenVertex \<Rightarrow> bool" where
  "samePoint u v = (x u = x v \<and> y u = y v \<and> z u = z v)"

text \<open>
  The concrete inputs of the examples below, as abbreviations: a statement that uses one is a
  statement about the term it stands for. The screen has 2 by 2 pixels; the light shines
  along the negative z axis with the intensity 0.6 of the demo scene.
\<close>

abbreviation flatOptions :: "bool \<Rightarrow> RendererOptions" where
  "flatOptions snap \<equiv> \<lparr> shading = Some Flat, snapVertices = snap \<rparr>"

abbreviation frontLight :: DirectionalLight where
  "frontLight \<equiv> \<lparr> direction = \<lparr> x = 0, y = 0, z = - 1 \<rparr>,
                   lightColor = \<lparr> x = 1, y = 1, z = 1 \<rparr>, intensity = 0.6 \<rparr>"

abbreviation frontCamera :: Camera where
  "frontCamera \<equiv> \<lparr> position = \<lparr> x = 0, y = 0, z = 1 \<rparr>, up = \<lparr> x = 0, y = 1, z = 0 \<rparr>,
                    speed = 1, yaw = 0, pitch = 0 \<rparr>"

abbreviation litRenderer :: "bool \<Rightarrow> Renderer" where
  "litRenderer snap \<equiv> setDirectionalLight (newRenderer 2 2 True (flatOptions snap)) frontLight"

abbreviation blinnPhongRenderer :: Renderer where
  "blinnPhongRenderer \<equiv>
     setDirectionalLight
       (setCamera (newRenderer 2 2 True \<lparr> shading = Some BlinnPhong, snapVertices = False \<rparr>) frontCamera)
       frontLight"

abbreviation vertex :: "real \<Rightarrow> real \<Rightarrow> real \<Rightarrow> ScreenVertex" where
  "vertex px py pz \<equiv> \<lparr> x = px, y = py, z = pz, recipW = 1, color = None, normal = None, uv = None \<rparr>"

abbreviation upNormals :: "real list" where
  "upNormals \<equiv> [0, 0, 1,  0, 0, 1,  0, 0, 1]"

text \<open>
  With the identity as \<open>mvp\<close> a position \<open>(px, py, pz)\<close> lands on the 2 by 2 screen at
  \<open>(px + 1, 1 - py)\<close> with depth \<open>pz / 2 + 1 / 2\<close>. Four triangles: one that faces the viewer,
  the same with two vertices exchanged, one that lies between the pixel centres, one
  that \<open>offscreenMvp\<close> projects to \<open>(-1, -1), (-1, 4), (4, -1)\<close>, all off the screen, and one
  that it projects to \<open>(-11, -11), (-11, 19), (19, -11)\<close>.
\<close>

abbreviation frontPositions :: "real list" where
  "frontPositions \<equiv> [- 1, 1, 0,  - 1, 0, 0,  0, 1, 0]"



abbreviation offscreenPositions :: "real list" where
  "offscreenPositions \<equiv> [0, 0, 0,  0, - 1, 0,  1, 0, 0]"



abbreviation offscreenMvp :: Mat4 where
  "offscreenMvp \<equiv> [5, 0, 0, - 2,  0, 5, 0, 2,  0, 0, 1, 0,  0, 0, 0, 1]"

section \<open>Properties\<close>

subsection \<open>Rounding to a binary format\<close>

lemma roundHalfEven_cases: "roundHalfEven t = \<lfloor>t\<rfloor> \<or> roundHalfEven t = \<lfloor>t\<rfloor> + 1"
  by (simp add: roundHalfEven_def Let_def)

lemma roundHalfEven_of_int: "roundHalfEven (of_int k) = k"
  by (simp add: roundHalfEven_def)

lemma roundHalfEven_error: "\<bar>of_int (roundHalfEven t) - t\<bar> \<le> 1 / 2"
proof -
  have "of_int \<lfloor>t\<rfloor> \<le> t" "t < of_int \<lfloor>t\<rfloor> + 1" by linarith+
  then show ?thesis
    by (auto simp add: roundHalfEven_def Let_def)
qed

lemma roundHalfEven_ge: "of_int k \<le> t \<Longrightarrow> k \<le> roundHalfEven t"
proof -
  assume "of_int k \<le> t"
  then have "k \<le> \<lfloor>t\<rfloor>" by (simp add: le_floor_iff)
  then show ?thesis using roundHalfEven_cases [of t] by linarith
qed

lemma roundHalfEven_le: "t \<le> of_int k \<Longrightarrow> roundHalfEven t \<le> k"
proof (cases "of_int \<lfloor>t\<rfloor> = t")
  case True
  assume a: "t \<le> of_int k"
  obtain j where j: "t = of_int j" using True by metis
  have "j \<le> k" using a unfolding j by simp
  then show ?thesis unfolding j by (simp only: roundHalfEven_of_int)
next
  case False
  assume a: "t \<le> of_int k"
  have "of_int \<lfloor>t\<rfloor> < t" using False by (simp add: order.strict_iff_order)
  then have "of_int \<lfloor>t\<rfloor> < (of_int k :: real)" using a by linarith
  then have "\<lfloor>t\<rfloor> < k" by simp
  then show ?thesis using roundHalfEven_cases [of t] by linarith
qed

lemma roundHalfEven_minus: "roundHalfEven (- t) = - roundHalfEven t"
proof (cases "of_int \<lfloor>t\<rfloor> = t")
  case True
  then obtain k where "t = of_int k" by metis
  then show ?thesis
    by (simp add: roundHalfEven_of_int flip: of_int_minus)
next
  case False
  then have fl: "\<lfloor>- t\<rfloor> = - \<lfloor>t\<rfloor> - 1"
    by (simp add: floor_minus ceiling_altdef)
  show ?thesis
    unfolding roundHalfEven_def Let_def fl
    by (auto simp add: algebra_simps)
qed

lemma roundHalfEven_nonneg: "0 \<le> t \<Longrightarrow> 0 \<le> roundHalfEven t"
  using roundHalfEven_ge [of 0 t] by simp

lemma roundHalfEven_nonpos: "t \<le> 0 \<Longrightarrow> roundHalfEven t \<le> 0"
  using roundHalfEven_le [of t 0] by simp

text \<open>Powers of two and the binary exponent.\<close>

lemma two_powi_pos: "0 < (2::real) powi k"
  by simp

lemma two_powi_powr: "(2::real) powi k = 2 powr (of_int k)"
  by (simp add: powr_real_of_int')

lemma floor_log2_bounds:
  assumes "0 < v"
  shows "2 powi \<lfloor>log 2 v\<rfloor> \<le> v" "v < 2 powi (\<lfloor>log 2 v\<rfloor> + 1)"
  using floor_log_eq_powr_iff [of v 2 "\<lfloor>log 2 v\<rfloor>"] assms
  by (simp_all add: two_powi_powr)

lemma floor_log2_ge:
  assumes "0 < v" "2 powi k \<le> v"
  shows "k \<le> \<lfloor>log 2 v\<rfloor>"
  using assms by (simp add: le_floor_iff le_log_iff two_powi_powr)

lemma floor_log2_less:
  assumes "0 < v" "v < 2 powi k"
  shows "\<lfloor>log 2 v\<rfloor> < k"
  using assms by (simp add: floor_less_iff log_less_iff two_powi_powr)

lemma floor_log2_mono:
  assumes "0 < u" "u \<le> v"
  shows "\<lfloor>log 2 u\<rfloor> \<le> \<lfloor>log 2 v\<rfloor>"
  using assms by (intro floor_mono) simp

lemma two_powi_mono: "j \<le> k \<Longrightarrow> (2::real) powi j \<le> 2 powi k"
  by (simp add: power_int_increasing)

lemma two_powi_split:
  "j \<le> k \<Longrightarrow> (2::real) powi k = of_int (2 ^ nat (k - j)) * 2 powi j"
proof -
  assume "j \<le> k"
  have "(2::real) powi k = 2 powi ((k - j) + j)" by simp
  also have "\<dots> = 2 powi (k - j) * 2 powi j" by (rule power_int_add) simp
  also have "(2::real) powi (k - j) = 2 ^ nat (k - j)"
    using \<open>j \<le> k\<close> by (simp add: power_int_def)
  finally show ?thesis by simp
qed

lemma binaryQuantum_pos: "0 < binaryQuantum p emin v"
  by (simp add: binaryQuantum_def)

lemma binaryExponent_minus: "binaryExponent emin (- v) = binaryExponent emin v"
  by (simp add: binaryExponent_def)

lemma binaryQuantum_minus: "binaryQuantum p emin (- v) = binaryQuantum p emin v"
  by (simp add: binaryQuantum_def binaryExponent_minus)

lemma roundBinary_zero: "roundBinary p emin 0 = 0"
  by (simp add: roundBinary_def)

lemma roundBinary_minus: "roundBinary p emin (- v) = - roundBinary p emin v"
  by (simp add: roundBinary_def binaryQuantum_minus roundHalfEven_minus)

lemma roundBinary_nonneg: "0 \<le> v \<Longrightarrow> 0 \<le> roundBinary p emin v"
  using binaryQuantum_pos [of p emin v] roundHalfEven_nonneg [of "v / binaryQuantum p emin v"]
  by (simp add: roundBinary_def)

lemma roundBinary_nonpos: "v \<le> 0 \<Longrightarrow> roundBinary p emin v \<le> 0"
  using roundBinary_nonneg [of "- v" p emin] by (simp add: roundBinary_minus)

text \<open>A value \<open>m * 2 ^ k\<close> with a mantissa of at most \<open>p\<close> bits is not rounded.\<close>

lemma binaryExponent_mantissa:
  assumes "m \<noteq> 0" "\<bar>m\<bar> < 2 ^ p" "emin - int p + 1 \<le> k"
  shows "binaryExponent emin (of_int m * 2 powi k) - int p + 1 \<le> k"
proof -
  let ?v = "of_int m * (2::real) powi k"
  have pos: "0 < \<bar>?v\<bar>" using assms(1) by simp
  have "\<bar>?v\<bar> = of_int \<bar>m\<bar> * 2 powi k" by (simp add: abs_mult)
  also have "\<dots> < 2 ^ p * 2 powi k"
  proof -
    have "(of_int \<bar>m\<bar> :: real) < of_int (2 ^ p)" using assms(2) by (simp only: of_int_less_iff)
    then show ?thesis by simp
  qed
  also have "\<dots> = 2 powi (int p + k)"
    by (simp add: power_int_add)
  finally have "\<lfloor>log 2 \<bar>?v\<bar>\<rfloor> < int p + k"
    using floor_log2_less [OF pos] by simp
  then show ?thesis using assms(3) by (simp add: binaryExponent_def)
qed

lemma roundBinary_exact:
  assumes "v = of_int m * 2 powi k" "\<bar>m\<bar> < 2 ^ p" "emin - int p + 1 \<le> k"
  shows "roundBinary p emin v = v"
proof (cases "m = 0")
  case True
  then show ?thesis using assms(1) by (simp add: roundBinary_def)
next
  case False
  define j where "j = binaryExponent emin v - int p + 1"
  have j: "j \<le> k"
    unfolding j_def assms(1) by (rule binaryExponent_mantissa [OF False assms(2,3)])
  have q: "binaryQuantum p emin v = 2 powi j" by (simp add: binaryQuantum_def j_def)
  have nz: "v \<noteq> 0" using False assms(1) by simp
  have "v = of_int m * (of_int (2 ^ nat (k - j)) * 2 powi j)"
    unfolding assms(1) by (subst two_powi_split [OF j]) (rule refl)
  then have v: "v = of_int (m * 2 ^ nat (k - j)) * 2 powi j" by simp
  have "v / 2 powi j = of_int (m * 2 ^ nat (k - j))"
    by (subst v) simp
  then have "roundHalfEven (v / binaryQuantum p emin v) = m * 2 ^ nat (k - j)"
    unfolding q by (simp only: roundHalfEven_of_int)
  then have "roundBinary p emin v = of_int (m * 2 ^ nat (k - j)) * 2 powi j"
    using nz by (simp add: roundBinary_def q)
  then show ?thesis using v by simp
qed


text \<open>Rounding is monotone against a bound that is itself a value of the format.\<close>

lemma binaryExponent_mono:
  assumes "0 < u" "u \<le> v"
  shows "binaryExponent emin u \<le> binaryExponent emin v"
proof -
  have "\<lfloor>log 2 \<bar>u\<bar>\<rfloor> \<le> \<lfloor>log 2 \<bar>v\<bar>\<rfloor>" using floor_log2_mono [of u v] assms by simp
  then show ?thesis by (simp add: binaryExponent_def)
qed

lemma representable_multiple:
  assumes "roundBinary p emin v = v"
  shows "\<exists>n. v = of_int n * binaryQuantum p emin v"
proof (cases "v = 0")
  case True
  then show ?thesis by (intro exI [of _ 0]) simp
next
  case False
  then have "v = of_int (roundHalfEven (v / binaryQuantum p emin v)) * binaryQuantum p emin v"
    using assms by (simp add: roundBinary_def)
  then show ?thesis by blast
qed

lemma roundBinary_le_pos:
  assumes x: "0 < u" "u \<le> v" and rep: "roundBinary p emin v = v"
  shows "roundBinary p emin u \<le> v"
proof -
  define ju where "ju = binaryExponent emin u - int p + 1"
  define jv where "jv = binaryExponent emin v - int p + 1"
  have j: "ju \<le> jv" using binaryExponent_mono [OF x] by (simp add: ju_def jv_def)
  have qu: "binaryQuantum p emin u = 2 powi ju" and qv: "binaryQuantum p emin v = 2 powi jv"
    by (simp_all add: binaryQuantum_def ju_def jv_def)
  obtain n where n: "v = of_int n * 2 powi jv"
    using representable_multiple [OF rep] unfolding qv by blast
  have "v = of_int n * (of_int (2 ^ nat (jv - ju)) * 2 powi ju)"
    by (subst n, subst two_powi_split [OF j]) (rule refl)
  then have v: "v = of_int (n * 2 ^ nat (jv - ju)) * 2 powi ju" by simp
  have "u / 2 powi ju \<le> v / 2 powi ju" using x(2) by (simp add: divide_right_mono)
  also have "v / 2 powi ju = of_int (n * 2 ^ nat (jv - ju))" by (subst v) simp
  finally have "roundHalfEven (u / 2 powi ju) \<le> n * 2 ^ nat (jv - ju)"
    by (rule roundHalfEven_le)
  then have "(of_int (roundHalfEven (u / 2 powi ju)) :: real) \<le> of_int (n * 2 ^ nat (jv - ju))"
    by (simp only: of_int_le_iff)
  then have "of_int (roundHalfEven (u / 2 powi ju)) * 2 powi ju
               \<le> of_int (n * 2 ^ nat (jv - ju)) * (2::real) powi ju"
    by (rule mult_right_mono) simp
  then show ?thesis using x(1) v by (simp add: roundBinary_def qu)
qed

lemma roundBinary_ge_pos:
  assumes x: "0 < v" "v \<le> u" and rep: "roundBinary p emin v = v" and p: "0 < p"
  shows "v \<le> roundBinary p emin u"
proof -
  define eu where "eu = binaryExponent emin u"
  define ev where "ev = binaryExponent emin v"
  have upos: "0 < u" using x by simp
  have e: "ev \<le> eu" using binaryExponent_mono [OF x] by (simp add: eu_def ev_def)
  have qu: "binaryQuantum p emin u = 2 powi (eu - int p + 1)"
    and qv: "binaryQuantum p emin v = 2 powi (ev - int p + 1)"
    by (simp_all add: binaryQuantum_def eu_def ev_def)
  have ru: "roundBinary p emin u
              = of_int (roundHalfEven (u / 2 powi (eu - int p + 1))) * 2 powi (eu - int p + 1)"
    using upos by (simp add: roundBinary_def qu)
  show ?thesis
  proof (cases "ev = eu")
    case True
    obtain n where n: "v = of_int n * 2 powi (eu - int p + 1)"
      using representable_multiple [OF rep] unfolding qv True by blast
    have "v / 2 powi (eu - int p + 1) \<le> u / 2 powi (eu - int p + 1)"
      using x(2) by (simp add: divide_right_mono)
    moreover have "v / 2 powi (eu - int p + 1) = of_int n" by (subst n) simp
    ultimately have "of_int n \<le> u / 2 powi (eu - int p + 1)" by simp
    then have "n \<le> roundHalfEven (u / 2 powi (eu - int p + 1))" by (rule roundHalfEven_ge)
    then have "(of_int n :: real) \<le> of_int (roundHalfEven (u / 2 powi (eu - int p + 1)))"
      by (simp only: of_int_le_iff)
    then have "of_int n * 2 powi (eu - int p + 1)
                 \<le> of_int (roundHalfEven (u / 2 powi (eu - int p + 1))) * (2::real) powi (eu - int p + 1)"
      by (rule mult_right_mono) simp
    then show ?thesis unfolding ru n .
  next
    case False
    then have lt: "ev < eu" using e by simp
    have "emin \<le> ev" by (simp add: ev_def binaryExponent_def)
    then have eu: "eu = \<lfloor>log 2 u\<rfloor>"
      using lt upos unfolding eu_def binaryExponent_def by (simp add: max_def split: if_splits)
    have "\<lfloor>log 2 v\<rfloor> \<le> ev" using x(1) by (simp add: ev_def binaryExponent_def)
    then have "\<lfloor>log 2 v\<rfloor> + 1 \<le> eu" using lt by simp
    then have "(2::real) powi (\<lfloor>log 2 v\<rfloor> + 1) \<le> 2 powi eu" by (rule two_powi_mono)
    then have vlt: "v < 2 powi eu" using floor_log2_bounds(2) [OF x(1)] by simp
    have ule: "2 powi eu \<le> u" unfolding eu by (rule floor_log2_bounds(1) [OF upos])
    have sp: "(2::real) powi eu = of_int (2 ^ nat (int p - 1)) * 2 powi (eu - int p + 1)"
      using two_powi_split [of "eu - int p + 1" eu] p by simp
    have "of_int (2 ^ nat (int p - 1)) = 2 powi eu / (2::real) powi (eu - int p + 1)"
      by (subst sp) simp
    also have "\<dots> \<le> u / 2 powi (eu - int p + 1)" using ule by (simp add: divide_right_mono)
    finally have "2 ^ nat (int p - 1) \<le> roundHalfEven (u / 2 powi (eu - int p + 1))"
      by (rule roundHalfEven_ge)
    then have "(of_int (2 ^ nat (int p - 1)) :: real)
                 \<le> of_int (roundHalfEven (u / 2 powi (eu - int p + 1)))"
      by (simp only: of_int_le_iff)
    then have "of_int (2 ^ nat (int p - 1)) * 2 powi (eu - int p + 1)
                 \<le> of_int (roundHalfEven (u / 2 powi (eu - int p + 1))) * (2::real) powi (eu - int p + 1)"
      by (rule mult_right_mono) simp
    then have "2 powi eu \<le> roundBinary p emin u" unfolding ru sp .
    then show ?thesis using vlt by simp
  qed
qed

lemma representable_minus:
  "roundBinary p emin v = v \<Longrightarrow> roundBinary p emin (- v) = - v"
  by (simp add: roundBinary_minus)

lemma roundBinary_le:
  assumes "u \<le> v" "roundBinary p emin v = v" "0 < p"
  shows "roundBinary p emin u \<le> v"
proof -
  consider "0 < u" | "u \<le> 0" "0 \<le> v" | "u \<le> 0" "v < 0" by linarith
  then show ?thesis
  proof cases
    case 1
    then show ?thesis using assms by (intro roundBinary_le_pos)
  next
    case 2
    then show ?thesis using roundBinary_nonpos [of u p emin] by simp
  next
    case 3
    have "- v \<le> roundBinary p emin (- u)"
      using 3 assms by (intro roundBinary_ge_pos representable_minus) simp_all
    then show ?thesis by (simp add: roundBinary_minus)
  qed
qed

lemma roundBinary_ge:
  assumes "v \<le> u" "roundBinary p emin v = v" "0 < p"
  shows "v \<le> roundBinary p emin u"
  using roundBinary_le [of "- u" "- v" p emin] assms by (simp add: roundBinary_minus)

text \<open>The error of one rounding.\<close>

lemma roundBinary_error:
  "\<bar>roundBinary p emin v - v\<bar> \<le> binaryQuantum p emin v / 2"
proof (cases "v = 0")
  case True
  then show ?thesis using binaryQuantum_pos [of p emin v] by (simp add: roundBinary_def)
next
  case False
  let ?q = "binaryQuantum p emin v"
  have q: "0 < ?q" by (rule binaryQuantum_pos)
  have "roundBinary p emin v - v = (of_int (roundHalfEven (v / ?q)) - v / ?q) * ?q"
    using False q by (simp add: roundBinary_def field_simps)
  then have "\<bar>roundBinary p emin v - v\<bar> = \<bar>of_int (roundHalfEven (v / ?q)) - v / ?q\<bar> * ?q"
    using q by (simp add: abs_mult)
  also have "\<dots> \<le> 1 / 2 * ?q"
    using roundHalfEven_error [of "v / ?q"] q by (intro mult_right_mono) simp_all
  finally show ?thesis by simp
qed

lemma roundBinary_relative_error:
  assumes "v \<noteq> 0" "emin \<le> \<lfloor>log 2 \<bar>v\<bar>\<rfloor>" "0 < p"
  shows "\<bar>roundBinary p emin v - v\<bar> \<le> \<bar>v\<bar> / 2 ^ p"
proof -
  define e where "e = \<lfloor>log 2 \<bar>v\<bar>\<rfloor>"
  have pos: "0 < \<bar>v\<bar>" using assms(1) by simp
  have q: "binaryQuantum p emin v = 2 powi (e - int p + 1)"
    using assms(2) by (simp add: binaryQuantum_def binaryExponent_def e_def)
  have "(2::real) powi (e + 1) = of_int (2 ^ nat (int p)) * 2 powi (e - int p + 1)"
    using two_powi_split [of "e - int p + 1" "e + 1"] by simp
  then have "(2::real) powi (e - int p + 1) = 2 powi (e + 1) / 2 ^ p" by simp
  also have "\<dots> = 2 * 2 powi e / 2 ^ p" by (simp add: power_int_add)
  finally have "binaryQuantum p emin v / 2 = 2 powi e / 2 ^ p" unfolding q by simp
  also have "\<dots> \<le> \<bar>v\<bar> / 2 ^ p"
    using floor_log2_bounds(1) [OF pos] unfolding e_def by (simp add: divide_right_mono)
  finally show ?thesis using roundBinary_error [of p emin v] by linarith
qed


text \<open>A rounded value is a value of the format.\<close>

lemma roundBinary_mantissa_bound:
  assumes "v \<noteq> 0" "0 < p"
  shows "\<bar>roundHalfEven (v / binaryQuantum p emin v)\<bar> \<le> 2 ^ p"
proof -
  define e where "e = binaryExponent emin v"
  define j where "j = e - int p + 1"
  have q: "binaryQuantum p emin v = 2 powi j" by (simp add: binaryQuantum_def e_def j_def)
  have pos: "0 < \<bar>v\<bar>" using assms(1) by simp
  have "\<lfloor>log 2 \<bar>v\<bar>\<rfloor> + 1 \<le> e + 1" by (simp add: e_def binaryExponent_def)
  then have "(2::real) powi (\<lfloor>log 2 \<bar>v\<bar>\<rfloor> + 1) \<le> 2 powi (e + 1)" by (rule two_powi_mono)
  then have lt: "\<bar>v\<bar> < 2 powi (e + 1)" using floor_log2_bounds(2) [OF pos] by simp
  have sp: "(2::real) powi (e + 1) = of_int (2 ^ p) * 2 powi j"
    using two_powi_split [of j "e + 1"] by (simp add: j_def)
  have "\<bar>v\<bar> / 2 powi j < 2 powi (e + 1) / 2 powi j" using lt by (simp add: divide_strict_right_mono)
  also have "\<dots> = of_int (2 ^ p)" by (subst sp) simp
  finally have b: "\<bar>v / 2 powi j\<bar> < of_int (2 ^ p)" by simp
  have "v / 2 powi j \<le> of_int (2 ^ p)" using b by linarith
  then have u: "roundHalfEven (v / 2 powi j) \<le> 2 ^ p" by (rule roundHalfEven_le)
  have "- of_int (2 ^ p) \<le> v / 2 powi j" using b by linarith
  then have "of_int (- (2 ^ p)) \<le> v / 2 powi j" by (simp only: of_int_minus)
  then have l: "- (2 ^ p) \<le> roundHalfEven (v / 2 powi j)" by (rule roundHalfEven_ge)
  show ?thesis unfolding q using u l by linarith
qed

lemma roundBinary_idem:
  assumes "0 < p"
  shows "roundBinary p emin (roundBinary p emin v) = roundBinary p emin v"
proof (cases "v = 0")
  case True
  then show ?thesis by (simp add: roundBinary_def)
next
  case False
  define j where "j = binaryExponent emin v - int p + 1"
  define n where "n = roundHalfEven (v / binaryQuantum p emin v)"
  have q: "binaryQuantum p emin v = 2 powi j" by (simp add: binaryQuantum_def j_def)
  have r: "roundBinary p emin v = of_int n * 2 powi j"
    using False by (simp add: roundBinary_def n_def q)
  have jmin: "emin - int p + 1 \<le> j" by (simp add: j_def binaryExponent_def)
  have nb: "\<bar>n\<bar> \<le> 2 ^ p" unfolding n_def by (rule roundBinary_mantissa_bound [OF False assms])
  show ?thesis
  proof (cases "\<bar>n\<bar> < 2 ^ p")
    case True
    show ?thesis by (rule roundBinary_exact [OF r True jmin])
  next
    case False
    then have "\<bar>n\<bar> = 2 ^ p" using nb by simp
    then consider "n = 2 ^ p" | "n = - (2 ^ p)" by linarith
    then obtain m :: int where m: "n = m * 2" "\<bar>m\<bar> < 2 ^ p"
    proof cases
      case 1
      obtain p' where "p = Suc p'" using assms by (cases p) auto
      then show ?thesis using 1 that [of "2 ^ p'"] by simp
    next
      case 2
      obtain p' where "p = Suc p'" using assms by (cases p) auto
      then show ?thesis using 2 that [of "- (2 ^ p')"] by simp
    qed
    have "(2::real) powi (j + 1) = 2 powi j * 2" by (simp add: power_int_add)
    then have "roundBinary p emin v = of_int m * 2 powi (j + 1)"
      unfolding r m(1) by simp
    then show ?thesis using m(2) jmin by (intro roundBinary_exact [where m = m and k = "j + 1"]) simp_all
  qed
qed

text \<open>The binary32 roundings of \<open>1/2\<close>, which is a binary32 value, and of \<open>1/10\<close>, which is not.\<close>

lemma roundBinary_half: "roundBinary 24 (- 126) (1 / 2) = 1 / 2"
  by (rule roundBinary_exact [where m = 1 and k = "- 1"]) simp_all



lemma fround_half: "fround (1 / 2) = Depth (1 / 2)"
  by (simp add: fround_def roundBinary_half)





subsection \<open>The error of binary64 operations\<close>

lemma unitRoundoff_bounds: "0 < 1 - unitRoundoff" "0 < 1 + unitRoundoff"
  by (simp_all add: unitRoundoff_def)

lemma fl64_zero: "fl64 0 = 0"
  by (simp add: fl64_def roundBinary_zero)

lemma fl64_minus: "fl64 (- v) = - fl64 v"
  by (simp add: fl64_def roundBinary_minus)

lemma fl64_idem: "fl64 (fl64 v) = fl64 v"
  by (simp add: fl64_def roundBinary_idem)

lemma roundingFactor_pos: "roundingFactor j m r \<Longrightarrow> 0 < r"
proof -
  assume "roundingFactor j m r"
  then have "(1 - unitRoundoff) ^ j / (1 + unitRoundoff) ^ m \<le> r" by (simp add: roundingFactor_def)
  moreover have "0 < (1 - unitRoundoff) ^ j / (1 + unitRoundoff) ^ m"
    using unitRoundoff_bounds by simp
  ultimately show ?thesis by linarith
qed

lemma roundingFactor_one: "roundingFactor 0 0 1"
  by (simp add: roundingFactor_def)

lemma roundingFactor_mult:
  assumes "roundingFactor j m r" "roundingFactor j' m' r'"
  shows "roundingFactor (j + j') (m + m') (r * r')"
proof -
  let ?l = "1 - unitRoundoff" and ?h = "1 + unitRoundoff"
  note p = unitRoundoff_bounds
  have a: "?l ^ j / ?h ^ m \<le> r" "r \<le> ?h ^ j / ?l ^ m" "?l ^ j' / ?h ^ m' \<le> r'" "r' \<le> ?h ^ j' / ?l ^ m'"
    using assms by (simp_all add: roundingFactor_def)
  have pos: "0 < r" "0 < r'" using assms by (auto dest: roundingFactor_pos)
  have nn: "0 \<le> ?l ^ j / ?h ^ m" "0 \<le> ?l ^ j' / ?h ^ m'" using p by simp_all
  have "(?l ^ j / ?h ^ m) * (?l ^ j' / ?h ^ m') \<le> r * r'"
    using a(1,3) pos nn by (intro mult_mono) simp_all
  moreover have "r * r' \<le> (?h ^ j / ?l ^ m) * (?h ^ j' / ?l ^ m')"
    using a(2,4) pos by (intro mult_mono) simp_all
  ultimately show ?thesis by (simp add: roundingFactor_def power_add)
qed

lemma roundingFactor_inverse:
  assumes "roundingFactor j 0 r"
  shows "roundingFactor 0 j (1 / r)"
proof -
  let ?l = "1 - unitRoundoff" and ?h = "1 + unitRoundoff"
  have a: "?l ^ j \<le> r" "r \<le> ?h ^ j" using assms by (simp_all add: roundingFactor_def)
  have pos: "0 < r" using assms by (rule roundingFactor_pos)
  have lp: "0 < ?l ^ j" using unitRoundoff_bounds by simp
  have "1 / r \<le> 1 / ?l ^ j" using a(1) lp by (intro divide_left_mono) simp_all
  moreover have "1 / ?h ^ j \<le> 1 / r" using a(2) pos by (intro divide_left_mono) simp_all
  ultimately show ?thesis by (simp add: roundingFactor_def)
qed

text \<open>One rounding of a number of normal size changes it by a factor within \<open>1 \<plusminus> 2 ^ -53\<close>.\<close>

lemma fl64_factor:
  assumes "2 powi (- 1022) \<le> \<bar>v\<bar>"
  obtains r where "fl64 v = v * r" "roundingFactor 1 0 r"
proof -
  have pos: "0 < \<bar>v\<bar>" using assms by (smt (verit) two_powi_pos)
  then have nz: "v \<noteq> 0" by simp
  have "- 1022 \<le> \<lfloor>log 2 \<bar>v\<bar>\<rfloor>" using floor_log2_ge [OF pos assms] .
  then have e: "\<bar>fl64 v - v\<bar> \<le> \<bar>v\<bar> / 2 ^ 53"
    unfolding fl64_def using roundBinary_relative_error [OF nz, of "- 1022" 53] by simp
  define r where "r = fl64 v / v"
  have v: "fl64 v = v * r" using nz by (simp add: r_def)
  have "r - 1 = (fl64 v - v) / v" using nz by (simp add: r_def field_simps)
  then have "\<bar>r - 1\<bar> = \<bar>fl64 v - v\<bar> / \<bar>v\<bar>" by (simp only: abs_divide)
  also have "\<dots> \<le> (\<bar>v\<bar> / 2 ^ 53) / \<bar>v\<bar>" using e pos by (intro divide_right_mono) simp_all
  also have "\<dots> = unitRoundoff" using nz by (simp add: unitRoundoff_def)
  finally have "\<bar>r - 1\<bar> \<le> unitRoundoff" .
  then have "roundingFactor 1 0 r" unfolding roundingFactor_def by (simp add: abs_le_iff)
  then show ?thesis using v that by blast
qed

text \<open>Numbers with a short binary expansion are not rounded; rounding against such a bound.\<close>

lemma fl64_exact:
  assumes "v = of_int m * 2 powi k" "\<bar>m\<bar> < 2 ^ 53" "- 1074 \<le> k"
  shows "fl64 v = v"
  unfolding fl64_def using assms by (intro roundBinary_exact [where m = m and k = k]) simp_all

lemma fl64_one: "fl64 1 = 1"
  by (rule fl64_exact [where m = 1 and k = 0]) simp_all

lemma fl64_numeral: "(numeral n :: int) < 2 ^ 53 \<Longrightarrow> fl64 (numeral n) = numeral n"
  by (rule fl64_exact [where m = "numeral n" and k = 0]) simp_all

lemma fl64_halves:
  "fl64 (1 / 2) = 1 / 2" "fl64 (1 / 4) = 1 / 4" "fl64 (1 / 8) = 1 / 8"
  by (rule fl64_exact [where m = 1 and k = "- 1"], simp, simp, simp,
      rule fl64_exact [where m = 1 and k = "- 2"], simp, simp, simp,
      rule fl64_exact [where m = 1 and k = "- 3"], simp, simp, simp)

lemma fl64_numeral_halves:
  assumes "(numeral n :: int) < 2 ^ 53"
  shows "fl64 (numeral n / 2) = numeral n / 2" "fl64 (numeral n / 4) = numeral n / 4"
    "fl64 (numeral n / 8) = numeral n / 8"
  using assms
  by (intro fl64_exact [where m = "numeral n" and k = "- 1"], simp, simp, simp,
      intro fl64_exact [where m = "numeral n" and k = "- 2"], simp, simp, simp,
      intro fl64_exact [where m = "numeral n" and k = "- 3"], simp, simp, simp)

lemmas fl64_simps = fl64_zero fl64_one fl64_minus fl64_numeral fl64_halves fl64_numeral_halves fl64_idem

lemma fl64_le: "u \<le> v \<Longrightarrow> fl64 v = v \<Longrightarrow> fl64 u \<le> v"
  unfolding fl64_def by (rule roundBinary_le) simp_all

lemma fl64_ge: "v \<le> u \<Longrightarrow> fl64 v = v \<Longrightarrow> v \<le> fl64 u"
  unfolding fl64_def by (rule roundBinary_ge) simp_all

text \<open>
  The value of a rounding, from the binade of the number: for \<open>2 ^ e \<le> v < 2 ^ (e + 1)\<close> the
  neighbouring doubles are \<open>2 ^ (e - 52)\<close> apart.
\<close>

lemma fl64_value:
  assumes "2 powi e \<le> v" "v < 2 powi (e + 1)" "- 1022 \<le> e"
    and "roundHalfEven (v / 2 powi (e - 52)) = n"
  shows "fl64 v = of_int n * 2 powi (e - 52)"
proof -
  have pos: "0 < v" using assms(1) by (smt (verit) two_powi_pos)
  have "\<lfloor>log 2 v\<rfloor> = e"
    using floor_log2_ge [OF pos assms(1)] floor_log2_less [OF pos assms(2)] by simp
  then have "binaryQuantum 53 (- 1022) v = 2 powi (e - 52)"
    using pos assms(3) by (simp add: binaryQuantum_def binaryExponent_def)
  then show ?thesis using pos assms(4) by (simp add: fl64_def roundBinary_def)
qed

lemma roundingFactor_4_1: "roundingFactor 4 1 r \<Longrightarrow> \<bar>r - 1\<bar> \<le> 6 * unitRoundoff"
  unfolding roundingFactor_def unitRoundoff_def abs_le_iff by (simp add: field_simps)

lemma roundingFactor_3_0: "roundingFactor 3 0 r \<Longrightarrow> \<bar>r - 1\<bar> \<le> 4 * unitRoundoff"
  unfolding roundingFactor_def unitRoundoff_def abs_le_iff by (simp add: field_simps)

lemma roundingFactor_1_0: "roundingFactor 1 0 r \<Longrightarrow> 1 / 2 \<le> r \<and> r \<le> 2"
  unfolding roundingFactor_def unitRoundoff_def by (simp add: field_simps)

lemma magnitude_mult:
  assumes "magnitude j a" "magnitude k b"
  shows "magnitude (j + k) (a * b)"
proof -
  have a: "2 powi (- j) \<le> \<bar>a\<bar>" "\<bar>a\<bar> \<le> 2 powi j" and b: "2 powi (- k) \<le> \<bar>b\<bar>" "\<bar>b\<bar> \<le> 2 powi k"
    using assms by (simp_all add: magnitude_def)
  have "(2::real) powi (- j) * 2 powi (- k) \<le> \<bar>a\<bar> * \<bar>b\<bar>"
    using a(1) b(1) by (intro mult_mono) simp_all
  moreover have "\<bar>a\<bar> * \<bar>b\<bar> \<le> 2 powi j * 2 powi k"
    using a(2) b(2) by (intro mult_mono) simp_all
  moreover have "(2::real) powi (- j) * 2 powi (- k) = 2 powi (- (j + k))"
    "(2::real) powi j * 2 powi k = 2 powi (j + k)"
    by (subst power_int_add [symmetric]; simp)+
  ultimately show ?thesis by (simp add: magnitude_def abs_mult)
qed

lemma magnitude_inverse:
  assumes "magnitude k a"
  shows "magnitude k (1 / a)"
proof -
  have a: "2 powi (- k) \<le> \<bar>a\<bar>" "\<bar>a\<bar> \<le> 2 powi k" using assms by (simp_all add: magnitude_def)
  have pos: "0 < \<bar>a\<bar>" using a(1) by (smt (verit) two_powi_pos)
  have "inverse \<bar>a\<bar> \<le> inverse (2 powi (- k))"
    using a(1) by (rule le_imp_inverse_le) simp
  moreover have "inverse (2 powi k) \<le> inverse \<bar>a\<bar>"
    using a(2) pos by (rule le_imp_inverse_le)
  moreover have "inverse ((2::real) powi (- k)) = 2 powi k" "inverse ((2::real) powi k) = 2 powi (- k)"
    by (simp_all add: power_int_minus)
  ultimately show ?thesis by (simp add: magnitude_def abs_divide inverse_eq_divide)
qed

lemma magnitude_weaken:
  assumes "magnitude j a" "j \<le> k"
  shows "magnitude k a"
proof -
  have "(2::real) powi (- k) \<le> 2 powi (- j)" "(2::real) powi j \<le> 2 powi k"
    using assms(2) by (simp_all add: two_powi_mono)
  then show ?thesis using assms(1) unfolding magnitude_def by linarith
qed

lemma magnitude_bounds:
  assumes "2 powi (- k) \<le> a" "a \<le> 2 powi k"
  shows "magnitude k a"
proof -
  have "0 < a" using assms(1) by (smt (verit) two_powi_pos)
  then show ?thesis using assms by (simp add: magnitude_def)
qed

lemma magnitude_minus: "magnitude k (- a) = magnitude k a"
  by (simp add: magnitude_def)

lemma magnitude_factor: "roundingFactor 1 0 r \<Longrightarrow> magnitude 1 r"
  using roundingFactor_1_0 [of r] by (simp add: magnitude_def power_int_minus)

lemma fl64_step:
  assumes "magnitude k v" "k \<le> 1022"
  obtains r where "fl64 v = v * r" "roundingFactor 1 0 r" "magnitude (k + 1) (fl64 v)"
proof -
  have "- 1022 \<le> - k" using assms(2) by simp
  then have "(2::real) powi (- 1022) \<le> 2 powi (- k)" by (rule two_powi_mono)
  then have "2 powi (- 1022) \<le> \<bar>v\<bar>" using assms(1) unfolding magnitude_def by linarith
  then obtain r where r: "fl64 v = v * r" "roundingFactor 1 0 r" by (rule fl64_factor)
  have "magnitude (k + 1) (v * r)" using assms(1) magnitude_factor [OF r(2)] by (rule magnitude_mult)
  then have "magnitude (k + 1) (fl64 v)" by (simp only: r(1))
  then show ?thesis using r by (rule that [rotated 2])
qed

text \<open>The error of the last addition, whose exact result is small.\<close>

lemma fl64_absolute_error:
  assumes "\<bar>v\<bar> < 2"
  shows "\<bar>fl64 v - v\<bar> \<le> unitRoundoff"
proof (cases "v = 0")
  case True
  then show ?thesis by (simp add: fl64_zero unitRoundoff_def)
next
  case False
  then have pos: "0 < \<bar>v\<bar>" by simp
  have "\<bar>v\<bar> < 2 powi 1" using assms by simp
  then have "\<lfloor>log 2 \<bar>v\<bar>\<rfloor> < 1" by (rule floor_log2_less [OF pos])
  then have "binaryExponent (- 1022) v - int 53 + 1 \<le> - 52" by (simp add: binaryExponent_def)
  then have "binaryQuantum 53 (- 1022) v \<le> 2 powi (- 52)"
    unfolding binaryQuantum_def by (rule two_powi_mono)
  then have "binaryQuantum 53 (- 1022) v / 2 \<le> unitRoundoff"
    by (simp add: unitRoundoff_def power_int_minus field_simps)
  then show ?thesis
    unfolding fl64_def using roundBinary_error [of 53 "- 1022" v] by linarith
qed

text \<open>From the clip-space \<open>z\<close> to the screen depth: three more roundings and the last addition.\<close>

lemma depth_tail:
  fixes cw sg e :: real
  assumes cw: "2 powi (- 100) \<le> cw" "cw \<le> 2 powi 100"
    and sg: "sg = 1 \<or> sg = - 1"
    and e: "\<bar>e\<bar> \<le> 42 * unitRoundoff"
  shows "\<bar>fl64 (fl64 (fl64 (fl64 (sg * cw * (1 + e)) / cw) * 0.5) + 0.5) - (sg * 0.5 + 0.5)\<bar>
           \<le> 2 powi (- 48)"
proof -
  define c9 where "c9 = fl64 (sg * cw * (1 + e))"
  define q where "q = fl64 (c9 / cw)"
  define h where "h = fl64 (q * 0.5)"
  have cwpos: "0 < cw" using cw(1) by (smt (verit) two_powi_pos)
  have mcw: "magnitude 100 cw" using cw by (rule magnitude_bounds)
  have e': "1 / 2 \<le> 1 + e" "1 + e \<le> 2" using e by (simp_all add: unitRoundoff_def abs_le_iff)
  have "magnitude 1 (sg * (1 + e))"
    using sg e' by (auto simp add: magnitude_def power_int_minus abs_mult)
  then have "magnitude (1 + 100) (sg * (1 + e) * cw)" using mcw by (rule magnitude_mult)
  then have m0: "magnitude 101 (sg * cw * (1 + e))" by (simp add: mult.commute mult.left_commute)
  obtain r9 where r9: "c9 = sg * cw * (1 + e) * r9" "roundingFactor 1 0 r9"
    and m9: "magnitude 102 c9"
    unfolding c9_def using fl64_step [OF m0] by auto
  have m10: "magnitude 202 (c9 / cw)"
    using magnitude_mult [OF m9 magnitude_inverse [OF mcw]] by simp
  obtain r10 where r10: "q = c9 / cw * r10" "roundingFactor 1 0 r10"
    and m10': "magnitude 203 q"
    unfolding q_def using fl64_step [OF m10] by auto
  have half: "magnitude 1 (0.5 :: real)" by (simp add: magnitude_def power_int_minus)
  have m11: "magnitude 204 (q * 0.5)"
    using magnitude_mult [OF m10' half] by simp
  obtain r11 where r11: "h = q * 0.5 * r11" "roundingFactor 1 0 r11"
    unfolding h_def using fl64_step [OF m11] by auto
  define G where "G = r9 * r10 * r11"
  have "roundingFactor 3 0 (r9 * r10 * r11)"
    using roundingFactor_mult [OF roundingFactor_mult [OF r9(2) r10(2)] r11(2)]
    by (simp add: eval_nat_numeral)
  then have G: "\<bar>G - 1\<bar> \<le> 4 * unitRoundoff"
    unfolding G_def by (rule roundingFactor_3_0)
  have h: "h = sg * (1 + e) * G / 2"
    unfolding r11(1) r10(1) r9(1) G_def using cwpos by simp
  have d: "h + 0.5 - (sg * 0.5 + 0.5) = sg * ((G - 1) + e * G) / 2"
    unfolding h by (simp add: algebra_simps)
  have Gle: "\<bar>G\<bar> \<le> 1 + 4 * unitRoundoff" using G by (simp add: abs_le_iff)
  have "\<bar>e * G\<bar> \<le> (42 * unitRoundoff) * (1 + 4 * unitRoundoff)"
    unfolding abs_mult using e Gle by (intro mult_mono) (simp_all add: unitRoundoff_def)
  then have "\<bar>(G - 1) + e * G\<bar> \<le> 4 * unitRoundoff + (42 * unitRoundoff) * (1 + 4 * unitRoundoff)"
    using G by linarith
  moreover have "\<bar>sg * ((G - 1) + e * G) / 2\<bar> = \<bar>(G - 1) + e * G\<bar> / 2"
    using sg by (auto simp add: abs_mult)
  ultimately have b: "\<bar>h + 0.5 - (sg * 0.5 + 0.5)\<bar>
      \<le> (4 * unitRoundoff + (42 * unitRoundoff) * (1 + 4 * unitRoundoff)) / 2"
    unfolding d by simp
  have "\<bar>sg * 0.5 + 0.5\<bar> \<le> 1" using sg by auto
  moreover have "(4 * unitRoundoff + (42 * unitRoundoff) * (1 + 4 * unitRoundoff)) / 2 < 1 / 2"
    by (simp add: unitRoundoff_def)
  ultimately have small: "\<bar>h + 0.5\<bar> < 2" using b by linarith
  have "\<bar>fl64 (h + 0.5) - (h + 0.5)\<bar> \<le> unitRoundoff" using small by (rule fl64_absolute_error)
  then have "\<bar>fl64 (h + 0.5) - (sg * 0.5 + 0.5)\<bar>
      \<le> (4 * unitRoundoff + (42 * unitRoundoff) * (1 + 4 * unitRoundoff)) / 2 + unitRoundoff"
    using b by linarith
  also have "\<dots> \<le> 2 powi (- 48)" by (simp add: unitRoundoff_def power_int_minus)
  finally show ?thesis unfolding h_def q_def c9_def .
qed

text \<open>
  The two entries of the third row of the perspective matrix and the clip-space \<open>z\<close> of the
  centres of the near and of the far plane.
\<close>

lemma perspective_clip_z:
  fixes near far :: real
  assumes rng: "2 powi (- 100) \<le> near" "2 * near \<le> far" "far \<le> 2 powi 100"
  defines "nf \<equiv> fl64 (1 / fl64 (near - far))"
  defines "ma \<equiv> fl64 (fl64 (far + near) * nf)"
    and "mb \<equiv> fl64 (fl64 (fl64 (2 * far) * near) * nf)"
  shows "\<exists>e. fl64 (ma * (- near)) + mb = (- 1) * near * (1 + e) \<and> \<bar>e\<bar> \<le> 42 * unitRoundoff"
    and "\<exists>e. fl64 (ma * (- far)) + mb = 1 * far * (1 + e) \<and> \<bar>e\<bar> \<le> 42 * unitRoundoff"
proof -
  define dn where "dn = fl64 (near - far)"
  define sm where "sm = fl64 (far + near)"
  define tw where "tw = fl64 (2 * far)"
  define tn where "tn = fl64 (tw * near)"
  define K where "K = 1 / (far - near)"
  have npos: "0 < near" using rng(1) by (smt (verit) two_powi_pos)
  have fpos: "0 < far" and dpos: "0 < far - near" using npos rng(2) by simp_all
  have Kpos: "0 < K" using dpos by (simp add: K_def)
  have Kd: "K * (far - near) = 1" using dpos by (simp add: K_def)
  have mn: "magnitude 100 near" using rng npos by (intro magnitude_bounds) simp_all
  have mf: "magnitude 100 far" using rng npos by (intro magnitude_bounds) simp_all
  have "magnitude 100 (far - near)" using rng npos by (intro magnitude_bounds) simp_all
  then have md: "magnitude 100 (near - far)" using magnitude_minus [of 100 "far - near"] by simp
  have "(2::real) powi 101 = 2 * 2 powi 100" by (simp add: power_int_add)
  then have two: "far + near \<le> 2 powi 101" "2 * far \<le> 2 powi 101" using rng npos by simp_all
  have "(2::real) powi (- 101) \<le> 2 powi (- 100)" by (rule two_powi_mono) simp
  then have low: "2 powi (- 101) \<le> far + near" "2 powi (- 101) \<le> 2 * far" using rng npos by simp_all
  have ms: "magnitude 101 (far + near)" using low(1) two(1) by (rule magnitude_bounds)
  have mt: "magnitude 101 (2 * far)" using low(2) two(2) by (rule magnitude_bounds)
  obtain r1 where r1: "dn = (near - far) * r1" "roundingFactor 1 0 r1" and m1: "magnitude 101 dn"
    unfolding dn_def using fl64_step [OF md] by auto
  have m2: "magnitude 101 (1 / dn)" using m1 by (rule magnitude_inverse)
  obtain r2 where r2: "nf = 1 / dn * r2" "roundingFactor 1 0 r2" and m2': "magnitude 102 nf"
    unfolding nf_def dn_def [symmetric] using fl64_step [OF m2] by auto
  obtain r3 where r3: "sm = (far + near) * r3" "roundingFactor 1 0 r3" and m3: "magnitude 102 sm"
    unfolding sm_def using fl64_step [OF ms] by auto
  have m4: "magnitude 204 (sm * nf)" using magnitude_mult [OF m3 m2'] by simp
  obtain r4 where r4: "ma = sm * nf * r4" "roundingFactor 1 0 r4" and m4': "magnitude 205 ma"
    unfolding ma_def sm_def [symmetric] using fl64_step [OF m4] by auto
  obtain r5 where r5: "tw = 2 * far * r5" "roundingFactor 1 0 r5" and m5: "magnitude 102 tw"
    unfolding tw_def using fl64_step [OF mt] by auto
  have m6: "magnitude 202 (tw * near)" using magnitude_mult [OF m5 mn] by simp
  obtain r6 where r6: "tn = tw * near * r6" "roundingFactor 1 0 r6" and m6': "magnitude 203 tn"
    unfolding tn_def using fl64_step [OF m6] by auto
  have m7: "magnitude 305 (tn * nf)" using magnitude_mult [OF m6' m2'] by simp
  obtain r7 where r7: "mb = tn * nf * r7" "roundingFactor 1 0 r7"
    unfolding mb_def tn_def [symmetric] tw_def [symmetric] using fl64_step [OF m7] by auto
  have r1pos: "0 < r1" using r1(2) by (rule roundingFactor_pos)
  define rho where "rho = r2 * (1 / r1)"
  have rho: "roundingFactor 1 1 rho"
    unfolding rho_def using roundingFactor_mult [OF r2(2) roundingFactor_inverse [OF r1(2)]] by simp
  have nf: "nf = - K * rho"
  proof -
    have "1 / dn = - K * (1 / r1)"
      unfolding r1(1) K_def using dpos r1pos by (simp add: field_simps)
    then show ?thesis unfolding r2(1) rho_def by simp
  qed
  define A where "A = r3 * rho * r4"
  define B where "B = r5 * r6 * rho * r7"
  have A: "roundingFactor 3 1 A"
    unfolding A_def using roundingFactor_mult [OF roundingFactor_mult [OF r3(2) rho] r4(2)]
    by (simp add: eval_nat_numeral)
  have B: "roundingFactor 4 1 B"
    unfolding B_def
    using roundingFactor_mult [OF roundingFactor_mult [OF roundingFactor_mult [OF r5(2) r6(2)] rho] r7(2)]
    by (simp add: eval_nat_numeral)
  have ma: "ma = - ((far + near) * K) * A" unfolding r4(1) r3(1) nf A_def by simp
  have mb: "mb = - (2 * far * near * K) * B" unfolding r7(1) r6(1) r5(1) nf B_def by simp
  have b1: "\<bar>B - 1\<bar> \<le> 6 * unitRoundoff" using B by (rule roundingFactor_4_1)
  have upos: "0 \<le> unitRoundoff" by (simp add: unitRoundoff_def)
  show "\<exists>e. fl64 (ma * (- near)) + mb = (- 1) * near * (1 + e) \<and> \<bar>e\<bar> \<le> 42 * unitRoundoff"
  proof -
    have "magnitude 305 (ma * (- near))"
      using magnitude_mult [OF m4' mn] by (simp add: magnitude_minus [symmetric, of _ "ma * near"])
    define pz where "pz = fl64 (ma * (- near))"
    have "magnitude 305 (ma * (- near))" by fact
    then obtain r8 where r8: "pz = ma * (- near) * r8" "roundingFactor 1 0 r8"
      unfolding pz_def using fl64_step [of 305 "ma * (- near)"] by auto
    define A8 where "A8 = A * r8"
    have "roundingFactor 4 1 A8"
      unfolding A8_def using roundingFactor_mult [OF A r8(2)] by (simp add: eval_nat_numeral)
    then have a8: "\<bar>A8 - 1\<bar> \<le> 6 * unitRoundoff" by (rule roundingFactor_4_1)
    define e where "e = - K * ((far + near) * (A8 - 1) - 2 * far * (B - 1))"
    have "pz + mb = near * (K * ((far + near) * A8 - 2 * far * B))"
      unfolding r8(1) ma mb A8_def by (simp add: algebra_simps)
    also have "K * ((far + near) * A8 - 2 * far * B)
        = - (K * (far - near)) + K * ((far + near) * (A8 - 1) - 2 * far * (B - 1))"
      by (simp add: algebra_simps)
    also have "\<dots> = - (1 + e)" unfolding Kd e_def by simp
    finally have eq: "fl64 (ma * (- near)) + mb = (- 1) * near * (1 + e)"
      unfolding pz_def by (simp add: algebra_simps)
    have "\<bar>(far + near) * (A8 - 1) - 2 * far * (B - 1)\<bar>
        \<le> (far + near) * (6 * unitRoundoff) + 2 * far * (6 * unitRoundoff)"
    proof -
      have "\<bar>(far + near) * (A8 - 1)\<bar> \<le> (far + near) * (6 * unitRoundoff)"
        unfolding abs_mult using a8 npos fpos by (intro mult_mono) simp_all
      moreover have "\<bar>2 * far * (B - 1)\<bar> \<le> 2 * far * (6 * unitRoundoff)"
        unfolding abs_mult using b1 fpos by (intro mult_mono) simp_all
      ultimately show ?thesis by linarith
    qed
    also have "\<dots> = (3 * far + near) * (6 * unitRoundoff)" by (simp add: algebra_simps)
    also have "\<dots> \<le> (7 * (far - near)) * (6 * unitRoundoff)"
      using rng(2) upos npos by (intro mult_right_mono) simp_all
    finally have "K * \<bar>(far + near) * (A8 - 1) - 2 * far * (B - 1)\<bar>
        \<le> K * ((7 * (far - near)) * (6 * unitRoundoff))"
      using Kpos by (intro mult_left_mono) simp_all
    also have "\<dots> = (K * (far - near)) * (42 * unitRoundoff)" by simp
    also have "\<dots> = 42 * unitRoundoff" unfolding Kd by simp
    finally have "\<bar>e\<bar> \<le> 42 * unitRoundoff"
      unfolding e_def using Kpos by (simp add: abs_mult)
    then show ?thesis using eq by blast
  qed
  show "\<exists>e. fl64 (ma * (- far)) + mb = 1 * far * (1 + e) \<and> \<bar>e\<bar> \<le> 42 * unitRoundoff"
  proof -
    have "magnitude 305 (ma * (- far))"
      using magnitude_mult [OF m4' mf] by (simp add: magnitude_minus [symmetric, of _ "ma * far"])
    define pz where "pz = fl64 (ma * (- far))"
    have "magnitude 305 (ma * (- far))" by fact
    then obtain r8 where r8: "pz = ma * (- far) * r8" "roundingFactor 1 0 r8"
      unfolding pz_def using fl64_step [of 305 "ma * (- far)"] by auto
    define A8 where "A8 = A * r8"
    have "roundingFactor 4 1 A8"
      unfolding A8_def using roundingFactor_mult [OF A r8(2)] by (simp add: eval_nat_numeral)
    then have a8: "\<bar>A8 - 1\<bar> \<le> 6 * unitRoundoff" by (rule roundingFactor_4_1)
    define e where "e = K * ((far + near) * (A8 - 1) - 2 * near * (B - 1))"
    have "pz + mb = far * (K * ((far + near) * A8 - 2 * near * B))"
      unfolding r8(1) ma mb A8_def by (simp add: algebra_simps)
    also have "K * ((far + near) * A8 - 2 * near * B)
        = K * (far - near) + K * ((far + near) * (A8 - 1) - 2 * near * (B - 1))"
      by (simp add: algebra_simps)
    also have "\<dots> = 1 + e" unfolding Kd e_def by simp
    finally have eq: "fl64 (ma * (- far)) + mb = 1 * far * (1 + e)"
      unfolding pz_def by (simp add: algebra_simps)
    have "\<bar>(far + near) * (A8 - 1) - 2 * near * (B - 1)\<bar>
        \<le> (far + near) * (6 * unitRoundoff) + 2 * near * (6 * unitRoundoff)"
    proof -
      have "\<bar>(far + near) * (A8 - 1)\<bar> \<le> (far + near) * (6 * unitRoundoff)"
        unfolding abs_mult using a8 npos fpos by (intro mult_mono) simp_all
      moreover have "\<bar>2 * near * (B - 1)\<bar> \<le> 2 * near * (6 * unitRoundoff)"
        unfolding abs_mult using b1 npos by (intro mult_mono) simp_all
      ultimately show ?thesis by linarith
    qed
    also have "\<dots> = (far + 3 * near) * (6 * unitRoundoff)" by (simp add: algebra_simps)
    also have "\<dots> \<le> (7 * (far - near)) * (6 * unitRoundoff)"
      using rng(2) upos npos by (intro mult_right_mono) simp_all
    finally have "K * \<bar>(far + near) * (A8 - 1) - 2 * near * (B - 1)\<bar>
        \<le> K * ((7 * (far - near)) * (6 * unitRoundoff))"
      using Kpos by (intro mult_left_mono) simp_all
    also have "\<dots> = (K * (far - near)) * (42 * unitRoundoff)" by simp
    also have "\<dots> = 42 * unitRoundoff" unfolding Kd by simp
    finally have "\<bar>e\<bar> \<le> 42 * unitRoundoff"
      unfolding e_def using Kpos by (simp add: abs_mult)
    then show ?thesis using eq by blast
  qed
qed

subsection \<open>Typed arrays and the depth buffer\<close>

lemma typedIndex_nat:
  "k < length xs \<Longrightarrow> typedIndex xs (real k) = Some k"
  by (simp add: typedIndex_def)

lemma pixel_index_less:
  assumes "px < wd" "py < ht"
  shows "py * wd + px < wd * (ht :: nat)"
proof -
  have "py * wd + px < py * wd + wd" using assms by simp
  also have "\<dots> = (py + 1) * wd" by simp
  also have "\<dots> \<le> ht * wd" using assms by (intro mult_le_mono1) simp
  finally show ?thesis by (simp add: mult.commute)
qed

lemma ge_depth_iff: "ge_depth v d \<longleftrightarrow> \<not> lt_depth v d"
  by (cases d) auto

text \<open>
  Every buffer the renderer can reach has one depth cell per pixel: the constructor makes it
  so, and neither \<open>clearZ\<close> nor \<open>depthTest\<close> changes the length or the dimensions.
\<close>

lemma newRenderer_length:
  "length (zBuffer (newRenderer wd ht le opts)) = width (newRenderer wd ht le opts) * height (newRenderer wd ht le opts)"
  by (simp add: newRenderer_def clearZ_def)

lemma clearZ_length: "length (zBuffer (clearZ r)) = length (zBuffer r)"
  by (simp add: clearZ_def)

lemma clearZ_cells: "k < length (zBuffer r) \<Longrightarrow> zBuffer (clearZ r) ! k = Infinity"
  by (simp add: clearZ_def)

lemma depthTest_length:
  "length (zBuffer (snd (depthTest r px py pz))) = length (zBuffer r)"
  by (simp add: depthTest_def Let_def typedSet_def split: option.splits)

lemma depthTest_dims:
  "width (snd (depthTest r px py pz)) = width r \<and> height (snd (depthTest r px py pz)) = height r"
  by (simp add: depthTest_def Let_def)

lemma newRenderer_2_2:
  "newRenderer 2 2 le opts = \<lparr> width = 2, height = 2, littleEndian = le, data32 = [0, 0, 0, 0],
      zBuffer = [Infinity, Infinity, Infinity, Infinity], mainCamera = None,
      mainDirectionalLight = None, options = opts \<rparr>"
  by (simp add: newRenderer_def clearZ_def eval_nat_numeral)

lemma newRenderer_4_2:
  "newRenderer 4 2 le opts = \<lparr> width = 4, height = 2, littleEndian = le,
      data32 = [0, 0, 0, 0, 0, 0, 0, 0],
      zBuffer = [Infinity, Infinity, Infinity, Infinity, Infinity, Infinity, Infinity, Infinity],
      mainCamera = None, mainDirectionalLight = None, options = opts \<rparr>"
  by (simp add: newRenderer_def clearZ_def eval_nat_numeral)

lemma depthTest_at_cell:
  assumes "py * real (width r) + px = real k" "k < length (zBuffer r)"
  shows "depthTest r px py pz =
           (if lt_depth pz (zBuffer r ! k) then (True, r \<lparr> zBuffer := (zBuffer r)[k := fround pz] \<rparr>)
            else (False, r))"
  using assms typedIndex_nat [OF assms(2)]
  by (simp add: depthTest_def Let_def typedGet_def typedSet_def ge_depth_iff)




subsection \<open>The unchecked index of \<open>depthTest\<close>\<close>

lemma setPixel_outside:
  "px < 0 \<or> real (width r) \<le> px \<or> py < 0 \<or> real (height r) \<le> py \<Longrightarrow> setPixel r px py cr cg cb ca = r"
  by (auto simp: setPixel_def)

lemma setPixel_zBuffer: "zBuffer (setPixel r px py cr cg cb ca) = zBuffer r"
  by (simp add: setPixel_def Let_def)

lemma setPixel_dims:
  "width (setPixel r px py cr cg cb ca) = width r" "height (setPixel r px py cr cg cb ca) = height r"
  by (simp_all add: setPixel_def Let_def)

lemma plotPixel_zBuffer:
  "zBuffer (plotPixel cr cg cb ca px py pz r) = zBuffer (snd (depthTest r px py pz))"
  by (simp add: plotPixel_def setPixel_zBuffer split: prod.splits bool.splits)

lemma plotPixel_dims:
  "width (plotPixel cr cg cb ca px py pz r) = width r"
  "height (plotPixel cr cg cb ca px py pz r) = height r"
  using depthTest_dims [of r px py pz]
  by (auto simp add: plotPixel_def setPixel_dims split: prod.splits bool.splits)

lemma left_index:
  assumes "0 < wd" "1 \<le> py"
  shows "real py * real wd + (- 1) = real (py * wd - 1)"
    and "(py - 1) * wd + (wd - 1) = py * wd - (1::nat)"
proof -
  have "1 \<le> py * wd" using assms by (simp add: Suc_le_eq)
  then show "real py * real wd + (- 1) = real (py * wd - 1)" by (simp add: of_nat_diff)
  obtain q where q: "py = Suc q" using assms(2) by (cases py) auto
  obtain v where v: "wd = Suc v" using assms(1) by (cases wd) auto
  show "(py - 1) * wd + (wd - 1) = py * wd - (1::nat)" by (simp add: q v)
qed

lemma left_index_less:
  assumes "0 < wd" "1 \<le> py" "py \<le> ht"
  shows "py * wd - (1::nat) < wd * ht"
proof -
  have a: "py * wd \<le> ht * wd" using assms(3) by (rule mult_le_mono1)
  have "1 \<le> py * wd" using assms by (simp add: Suc_le_eq)
  then have b: "py * wd - 1 < py * wd" by simp
  have "py * wd - 1 < ht * wd" using a b by (rule less_le_trans [rotated])
  then show ?thesis by (simp add: mult.commute)
qed

lemma right_index_less:
  assumes "qy + 2 \<le> ht"
  shows "(qy + 1) * wd + 0 < wd * (ht :: nat) \<or> wd = 0"
proof (cases "wd = 0")
  case False
  then have "0 < wd" by simp
  moreover have "qy + 1 < ht" using assms by simp
  ultimately show ?thesis using pixel_index_less [of 0 wd "qy + 1" ht] by simp
qed simp

text \<open>A line of length 1 runs the loop body for \<open>i = 0\<close> and \<open>i = 1\<close>.\<close>

lemma eflaLoop_two:
  assumes "longLen l = 1"
  shows "eflaLoop l cr cg cb ca 0 v = eflaBody l cr cg cb ca (eflaBody l cr cg cb ca v)"
proof -
  have "eflaLoop l cr cg cb ca 0 v = eflaLoop l cr cg cb ca 1 (eflaBody l cr cg cb ca v)"
    by (subst eflaLoop.simps) (simp add: assms)
  also have "\<dots> = eflaLoop l cr cg cb ca 2 (eflaBody l cr cg cb ca (eflaBody l cr cg cb ca v))"
    by (subst eflaLoop.simps) (simp add: assms)
  also have "\<dots> = eflaBody l cr cg cb ca (eflaBody l cr cg cb ca v)"
    by (subst eflaLoop.simps) (simp add: assms)
  finally show ?thesis .
qed

lemma js_zero: "jsShiftRight 0 16 = 0" "jsBitAnd 0 0xFFFF = 0"
  by (simp_all add: jsShiftRight_def jsBitAnd_def toInt32_def)

text \<open>
  The line from \<open>(0, py)\<close> to \<open>(-1, py)\<close> at constant depth: it plots its start point and then
  the point one step to the left of the screen.
\<close>

lemma drawLine_left_exit:
  "drawLine3DEFLA r 0 py pz (- 1) py pz cr cg cb ca =
     plotPixel cr cg cb ca (- 1) py pz (plotPixel cr cg cb ca 0 py pz r)"
  by (simp add: drawLine3DEFLA_def eflaLoop_two eflaBody_def js_zero Let_def)

text \<open>
  C10. \<open>depthTest\<close> uses the flat index \<open>y * width + x\<close> unchecked. On a renderer with one depth
  cell per pixel and at least one column: for \<open>x = -1\<close> and a row \<open>1 \<le> py < height\<close> the call
  compares \<open>pz\<close> with the depth of the pixel \<open>(width - 1, py - 1)\<close> and on pass overwrites
  it; for \<open>x = width\<close> and a row \<open>qy \<le> height - 2\<close> it does so with the pixel \<open>(0, qy + 1)\<close>.
  \<open>setPixel\<close> at the same coordinates changes nothing. \<open>drawLine3DEFLA\<close> calls \<open>depthTest\<close>
  before any bounds check: the line from \<open>(0, py)\<close> to \<open>(-1, py)\<close> leaves the depth of the
  pixel \<open>(width - 1, py - 1)\<close>, which it does not touch, at \<open>fround pz\<close> (the stored form
  of \<open>pz\<close>) whenever \<open>pz\<close> is below the depth stored there.
\<close>

theorem depthTest_unchecked_index:
  assumes len: "length (zBuffer r) = width r * height r"
    and wd: "0 < width r" and py: "1 \<le> py" "py < height r" and qy: "qy + 2 \<le> height r"
  shows "(fst (depthTest r (- 1) (real py) pz) \<longleftrightarrow> lt_depth pz (cellAt r (width r - 1) (py - 1)))
       \<and> (fst (depthTest r (- 1) (real py) pz) \<longrightarrow>
            cellAt (snd (depthTest r (- 1) (real py) pz)) (width r - 1) (py - 1) = fround pz)
       \<and> setPixel r (- 1) (real py) cr cg cb ca = r
       \<and> (fst (depthTest r (real (width r)) (real qy) pz) \<longleftrightarrow> lt_depth pz (cellAt r 0 (qy + 1)))
       \<and> (fst (depthTest r (real (width r)) (real qy) pz) \<longrightarrow>
            cellAt (snd (depthTest r (real (width r)) (real qy) pz)) 0 (qy + 1) = fround pz)
       \<and> setPixel r (real (width r)) (real qy) cr cg cb ca = r
       \<and> cellAt (drawLine3DEFLA r 0 (real py) pz (- 1) (real py) pz cr cg cb ca) (width r - 1) (py - 1)
           = (if lt_depth pz (cellAt r (width r - 1) (py - 1)) then fround pz
              else cellAt r (width r - 1) (py - 1))"
proof -
  let ?k = "py * width r - 1"
  have idx: "real py * real (width r) + (- 1) = real ?k"
    and cell: "(py - 1) * width r + (width r - 1) = ?k"
    using left_index [OF wd py(1)] by simp_all
  have k: "?k < length (zBuffer r)"
    using left_index_less [OF wd py(1), of "height r"] py(2) len by simp
  note dt = depthTest_at_cell [OF idx k, of pz]
  have a: "fst (depthTest r (- 1) (real py) pz) \<longleftrightarrow> lt_depth pz (cellAt r (width r - 1) (py - 1))"
    unfolding cellAt_def cell by (simp add: dt)
  have b: "fst (depthTest r (- 1) (real py) pz) \<longrightarrow>
            cellAt (snd (depthTest r (- 1) (real py) pz)) (width r - 1) (py - 1) = fround pz"
    using k cell by (simp add: dt cellAt_def)
  have c: "setPixel r (- 1) (real py) cr cg cb ca = r"
    by (rule setPixel_outside) simp
  let ?m = "(qy + 1) * width r + 0"
  have idxr: "real qy * real (width r) + real (width r) = real ?m"
    by (simp add: algebra_simps)
  have m: "?m < length (zBuffer r)"
    using right_index_less [OF qy, of "width r"] wd len by simp
  note dr = depthTest_at_cell [OF idxr m, of pz]
  have e: "fst (depthTest r (real (width r)) (real qy) pz) \<longleftrightarrow> lt_depth pz (cellAt r 0 (qy + 1))"
    unfolding cellAt_def by (simp add: dr)
  have f: "fst (depthTest r (real (width r)) (real qy) pz) \<longrightarrow>
            cellAt (snd (depthTest r (real (width r)) (real qy) pz)) 0 (qy + 1) = fround pz"
    using m by (simp add: dr cellAt_def)
  have g: "setPixel r (real (width r)) (real qy) cr cg cb ca = r"
    by (rule setPixel_outside) simp
  let ?r1 = "plotPixel cr cg cb ca 0 (real py) pz r"
  let ?j = "py * width r"
  have j: "?j < length (zBuffer r)"
    using pixel_index_less [OF wd py(2)] len by simp
  have idx0: "real py * real (width r) + 0 = real ?j" by simp
  have "0 < ?j" using wd py(1) by simp
  then have ne: "?j \<noteq> ?k" by linarith
  have z1: "zBuffer ?r1 ! ?k = zBuffer r ! ?k"
    using ne by (simp add: plotPixel_zBuffer depthTest_at_cell [OF idx0 j])
  have len1: "?k < length (zBuffer ?r1)"
    using k by (simp add: plotPixel_zBuffer depthTest_length)
  have idx1: "real py * real (width ?r1) + (- 1) = real ?k"
    using idx by (simp add: plotPixel_dims)
  let ?r2 = "plotPixel cr cg cb ca (- 1) (real py) pz ?r1"
  have "zBuffer ?r2 = zBuffer (snd (depthTest ?r1 (- 1) (real py) pz))"
    by (rule plotPixel_zBuffer)
  also have "\<dots> = (if lt_depth pz (zBuffer ?r1 ! ?k) then (zBuffer ?r1)[?k := fround pz]
                    else zBuffer ?r1)"
    unfolding depthTest_at_cell [OF idx1 len1] by simp
  finally have "zBuffer ?r2 ! ?k
      = (if lt_depth pz (zBuffer ?r1 ! ?k) then fround pz else zBuffer ?r1 ! ?k)"
    using len1 by simp
  then have z2: "zBuffer ?r2 ! ?k
      = (if lt_depth pz (zBuffer r ! ?k) then fround pz else zBuffer r ! ?k)"
    unfolding z1 .
  have wd2: "width ?r2 = width r" by (simp only: plotPixel_dims)
  have d: "cellAt (drawLine3DEFLA r 0 (real py) pz (- 1) (real py) pz cr cg cb ca) (width r - 1) (py - 1)
           = (if lt_depth pz (cellAt r (width r - 1) (py - 1)) then fround pz
              else cellAt r (width r - 1) (py - 1))"
    unfolding cellAt_def drawLine_left_exit wd2 cell by (rule z2)
  show ?thesis using a b c d e f g by blast
qed

theorem depthTest_unchecked_index_witness:
  "length (zBuffer (newRenderer 2 2 True (flatOptions False))) = 2 * 2
   \<and> fst (depthTest (newRenderer 2 2 True (flatOptions False)) (- 1) 1 (1 / 2))
   \<and> cellAt (snd (depthTest (newRenderer 2 2 True (flatOptions False)) (- 1) 1 (1 / 2))) 1 0 = Depth (1 / 2)
   \<and> fst (depthTest (newRenderer 2 2 True (flatOptions False)) 2 0 (1 / 2))
   \<and> cellAt (snd (depthTest (newRenderer 2 2 True (flatOptions False)) 2 0 (1 / 2))) 0 1 = Depth (1 / 2)
   \<and> cellAt (drawLine3DEFLA (newRenderer 2 2 True (flatOptions False)) 0 1 (1 / 2) (- 1) 1 (1 / 2) 255 0 0 255) 1 0
       = Depth (1 / 2)"
  using depthTest_unchecked_index [of "newRenderer 2 2 True (flatOptions False)" 1 0 "1 / 2" 255 0 0 255]
  by (simp add: newRenderer_def clearZ_def cellAt_def fround_half)

subsection \<open>Projection\<close>

lemma projectVertex_None_iff:
  "projectVertex pos mvp wd ht = None \<longleftrightarrow>
     w (mat4MulVec4 mvp \<lparr> x = x pos, y = y pos, z = z pos, w = 1 \<rparr>) = 0"
  by (simp add: projectVertex_def Let_def)

text \<open>The viewport map of a device coordinate in \<open>[-1, 1]\<close>, for a size that is a double.\<close>

lemma depth_range:
  assumes "- 1 \<le> t" "t \<le> 1"
  shows "0 \<le> fl64 (fl64 (t * 0.5) + 0.5)" "fl64 (fl64 (t * 0.5) + 0.5) \<le> 1"
proof -
  have h: "fl64 (- (1 / 2)) = - (1 / 2)" "fl64 (1 / 2) = 1 / 2" by (simp_all add: fl64_simps)
  have a: "- (1 / 2) \<le> fl64 (t * 0.5)" using assms(1) by (intro fl64_ge h) simp
  have b: "fl64 (t * 0.5) \<le> 1 / 2" using assms(2) by (intro fl64_le h) simp
  show "0 \<le> fl64 (fl64 (t * 0.5) + 0.5)" using a by (intro fl64_ge fl64_zero) simp
  show "fl64 (fl64 (t * 0.5) + 0.5) \<le> 1" using b by (intro fl64_le fl64_one) simp
qed

lemma viewport_range:
  assumes "- 1 \<le> t" "t \<le> 1" "0 \<le> s" "fl64 s = s"
  shows "0 \<le> fl64 (fl64 (fl64 (t * 0.5) + 0.5) * s)" "fl64 (fl64 (fl64 (t * 0.5) + 0.5) * s) \<le> s"
    "0 \<le> fl64 (fl64 (1.0 - fl64 (fl64 (t * 0.5) + 0.5)) * s)"
    "fl64 (fl64 (1.0 - fl64 (fl64 (t * 0.5) + 0.5)) * s) \<le> s"
proof -
  note d = depth_range [OF assms(1,2)]
  have a: "0 \<le> fl64 (fl64 (t * 0.5) + 0.5) * s" using d(1) assms(3) by (rule mult_nonneg_nonneg)
  have b: "fl64 (fl64 (t * 0.5) + 0.5) * s \<le> s"
    using mult_right_mono [OF d(2) assms(3)] by simp
  show "0 \<le> fl64 (fl64 (fl64 (t * 0.5) + 0.5) * s)" using a by (intro fl64_ge fl64_zero)
  show "fl64 (fl64 (fl64 (t * 0.5) + 0.5) * s) \<le> s" using b assms(4) by (rule fl64_le)
  have c: "0 \<le> fl64 (1.0 - fl64 (fl64 (t * 0.5) + 0.5))" using d(2) by (intro fl64_ge fl64_zero) simp
  have e: "fl64 (1.0 - fl64 (fl64 (t * 0.5) + 0.5)) \<le> 1" using d(1) by (intro fl64_le fl64_one) simp
  have f: "0 \<le> fl64 (1.0 - fl64 (fl64 (t * 0.5) + 0.5)) * s" using c assms(3) by (rule mult_nonneg_nonneg)
  have g: "fl64 (1.0 - fl64 (fl64 (t * 0.5) + 0.5)) * s \<le> s"
    using mult_right_mono [OF e assms(3)] by simp
  show "0 \<le> fl64 (fl64 (1.0 - fl64 (fl64 (t * 0.5) + 0.5)) * s)" using f by (intro fl64_ge fl64_zero)
  show "fl64 (fl64 (1.0 - fl64 (fl64 (t * 0.5) + 0.5)) * s) \<le> s" using g assms(4) by (rule fl64_le)
qed

text \<open>
  The right and the top edge of the device square are not mapped into the half-open screen
  rectangle: the point with device coordinates \<open>x = 1, y = 1\<close> gets \<open>screenX = 640\<close>, the
  width itself, and \<open>screenY = 0\<close>. The ranges of the screen coordinates are closed at both
  ends.
\<close>

theorem projectVertex_right_edge:
  "projectVertex \<lparr> x = 1, y = 1, z = 0 \<rparr> mat4Identity 640 480
     = Some \<lparr> screenX = 640, screenY = 0, screenZ = 1 / 2,
              ndc = \<lparr> x = 1, y = 1, z = 0 \<rparr>, clipW = 1 \<rparr>"
  by (simp add: projectVertex_def mat4Identity_def mat4MulVec4_def Let_def fl64_simps)

text \<open>
  C4, as the code has it. \<open>projectVertex\<close> returns none exactly when the clip-space \<open>w\<close> of
  \<open>mvp\<close> applied to \<open>(pos, 1)\<close> is 0. Otherwise it returns the perspective divide \<open>ndc\<close> and
  the screen coordinates \<open>(ndc.x / 2 + 1 / 2) * width\<close>, \<open>(1 - (ndc.y / 2 + 1 / 2)) * height\<close>
  and the depth \<open>ndc.z / 2 + 1 / 2\<close>, each operation rounded: for a width and a height that
  are doubles, device \<open>x\<close> in \<open>[-1, 1]\<close> goes onto the closed range \<open>[0, width]\<close> (\<open>-1\<close> to 0,
  \<open>1\<close> to \<open>width\<close>), device \<open>y\<close> in \<open>[-1, 1]\<close> goes flipped onto \<open>[0, height]\<close> (\<open>-1\<close> to
  \<open>height\<close>, \<open>1\<close> to 0), device \<open>z\<close> in \<open>[-1, 1]\<close> onto \<open>[0, 1]\<close>.
  \<open>transformTriangleToScreen\<close> returns none exactly when one of the three projections does,
  and \<open>renderTriangle\<close> then drops the triangle: it returns the renderer unchanged, before
  any test, shading or fill.
\<close>

theorem projectVertex_viewport:
  fixes pos :: Vec3 and mvp :: Mat4
  defines "clip \<equiv> mat4MulVec4 mvp \<lparr> x = x pos, y = y pos, z = z pos, w = 1 \<rparr>"
  shows "(projectVertex pos mvp wd ht = None \<longleftrightarrow> w clip = 0)
    \<and> (w clip \<noteq> 0 \<longrightarrow>
          (\<exists>p. projectVertex pos mvp wd ht = Some p
             \<and> ndc p = \<lparr> x = fl64 (x clip / w clip), y = fl64 (y clip / w clip),
                         z = fl64 (z clip / w clip) \<rparr>
             \<and> screenX p = fl64 (fl64 (fl64 (x (ndc p) * 0.5) + 0.5) * wd)
             \<and> screenY p = fl64 (fl64 (1.0 - fl64 (fl64 (y (ndc p) * 0.5) + 0.5)) * ht)
             \<and> screenZ p = fl64 (fl64 (z (ndc p) * 0.5) + 0.5)
             \<and> (0 \<le> wd \<and> fl64 wd = wd \<and> - 1 \<le> x (ndc p) \<and> x (ndc p) \<le> 1 \<longrightarrow>
                  0 \<le> screenX p \<and> screenX p \<le> wd)
             \<and> (x (ndc p) = - 1 \<longrightarrow> screenX p = 0) \<and> (x (ndc p) = 1 \<longrightarrow> screenX p = fl64 wd)
             \<and> (0 \<le> ht \<and> fl64 ht = ht \<and> - 1 \<le> y (ndc p) \<and> y (ndc p) \<le> 1 \<longrightarrow>
                  0 \<le> screenY p \<and> screenY p \<le> ht)
             \<and> (y (ndc p) = - 1 \<longrightarrow> screenY p = fl64 ht) \<and> (y (ndc p) = 1 \<longrightarrow> screenY p = 0)
             \<and> (- 1 \<le> z (ndc p) \<and> z (ndc p) \<le> 1 \<longrightarrow> 0 \<le> screenZ p \<and> screenZ p \<le> 1)))
    \<and> (transformTriangleToScreen a b c mvp wd ht = None \<longleftrightarrow>
          projectVertex a mvp wd ht = None \<or> projectVertex b mvp wd ht = None
          \<or> projectVertex c mvp wd ht = None)
    \<and> (transformTriangleToScreen (vertexAt idx verts i) (vertexAt idx verts (i + 1))
          (vertexAt idx verts (i + 2)) mvp (real (width r)) (real (height r)) = None \<longrightarrow>
          renderTriangle r idx i verts normals uvs mvp modelMat = Inr r)"
proof (intro conjI impI)
  show "projectVertex pos mvp wd ht = None \<longleftrightarrow> w clip = 0"
    by (simp add: projectVertex_None_iff clip_def)
next
  assume nz: "w clip \<noteq> 0"
  define nx where "nx = fl64 (x clip / w clip)"
  define ny where "ny = fl64 (y clip / w clip)"
  define nz' where "nz' = fl64 (z clip / w clip)"
  let ?p = "\<lparr> screenX = fl64 (fl64 (fl64 (nx * 0.5) + 0.5) * wd),
              screenY = fl64 (fl64 (1.0 - fl64 (fl64 (ny * 0.5) + 0.5)) * ht),
              screenZ = fl64 (fl64 (nz' * 0.5) + 0.5),
              ndc = \<lparr> x = nx, y = ny, z = nz' \<rparr>, clipW = w clip \<rparr>"
  have p: "projectVertex pos mvp wd ht = Some ?p"
    using nz by (simp add: projectVertex_def Let_def clip_def nx_def ny_def nz'_def)
  have rx: "0 \<le> wd \<and> fl64 wd = wd \<and> - 1 \<le> x (ndc ?p) \<and> x (ndc ?p) \<le> 1 \<longrightarrow>
              0 \<le> screenX ?p \<and> screenX ?p \<le> wd"
    using viewport_range(1,2) [of nx wd] by simp
  have ry: "0 \<le> ht \<and> fl64 ht = ht \<and> - 1 \<le> y (ndc ?p) \<and> y (ndc ?p) \<le> 1 \<longrightarrow>
              0 \<le> screenY ?p \<and> screenY ?p \<le> ht"
    using viewport_range(3,4) [of ny ht] by simp
  have rz: "- 1 \<le> z (ndc ?p) \<and> z (ndc ?p) \<le> 1 \<longrightarrow> 0 \<le> screenZ ?p \<and> screenZ ?p \<le> 1"
    using depth_range [of nz'] by simp
  have ex: "x (ndc ?p) = - 1 \<longrightarrow> screenX ?p = 0" "x (ndc ?p) = 1 \<longrightarrow> screenX ?p = fl64 wd"
    "y (ndc ?p) = - 1 \<longrightarrow> screenY ?p = fl64 ht" "y (ndc ?p) = 1 \<longrightarrow> screenY ?p = 0"
    by (simp_all add: fl64_simps)
  show "\<exists>p. projectVertex pos mvp wd ht = Some p
             \<and> ndc p = \<lparr> x = fl64 (x clip / w clip), y = fl64 (y clip / w clip),
                         z = fl64 (z clip / w clip) \<rparr>
             \<and> screenX p = fl64 (fl64 (fl64 (x (ndc p) * 0.5) + 0.5) * wd)
             \<and> screenY p = fl64 (fl64 (1.0 - fl64 (fl64 (y (ndc p) * 0.5) + 0.5)) * ht)
             \<and> screenZ p = fl64 (fl64 (z (ndc p) * 0.5) + 0.5)
             \<and> (0 \<le> wd \<and> fl64 wd = wd \<and> - 1 \<le> x (ndc p) \<and> x (ndc p) \<le> 1 \<longrightarrow>
                  0 \<le> screenX p \<and> screenX p \<le> wd)
             \<and> (x (ndc p) = - 1 \<longrightarrow> screenX p = 0) \<and> (x (ndc p) = 1 \<longrightarrow> screenX p = fl64 wd)
             \<and> (0 \<le> ht \<and> fl64 ht = ht \<and> - 1 \<le> y (ndc p) \<and> y (ndc p) \<le> 1 \<longrightarrow>
                  0 \<le> screenY p \<and> screenY p \<le> ht)
             \<and> (y (ndc p) = - 1 \<longrightarrow> screenY p = fl64 ht) \<and> (y (ndc p) = 1 \<longrightarrow> screenY p = 0)
             \<and> (- 1 \<le> z (ndc p) \<and> z (ndc p) \<le> 1 \<longrightarrow> 0 \<le> screenZ p \<and> screenZ p \<le> 1)"
    apply (rule exI [of _ ?p])
    apply (intro conjI)
               apply (rule p)
              apply (simp add: nx_def ny_def nz'_def)
             apply simp
            apply simp
           apply simp
          apply (rule rx)
         apply (rule ex(1))
        apply (rule ex(2))
       apply (rule ry)
      apply (rule ex(3))
     apply (rule ex(4))
    apply (rule rz)
    done
next
  show "transformTriangleToScreen a b c mvp wd ht = None \<longleftrightarrow>
          projectVertex a mvp wd ht = None \<or> projectVertex b mvp wd ht = None
          \<or> projectVertex c mvp wd ht = None"
    by (simp add: transformTriangleToScreen_def Let_def)
next
  assume "transformTriangleToScreen (vertexAt idx verts i) (vertexAt idx verts (i + 1))
          (vertexAt idx verts (i + 2)) mvp (real (width r)) (real (height r)) = None"
  then show "renderTriangle r idx i verts normals uvs mvp modelMat = Inr r"
    by (simp add: renderTriangle_def Let_def)
qed

text \<open>
  At the device point \<open>(-1/2, 1/2, 0)\<close> on a 640 by 480 screen; and a triangle with a vertex
  that the matrix sends to \<open>w = 0\<close> is dropped.
\<close>

theorem projectVertex_viewport_witness:
  "w (mat4MulVec4 mat4Identity \<lparr> x = - 1 / 2, y = 1 / 2, z = 0, w = 1 \<rparr>) \<noteq> 0
   \<and> projectVertex \<lparr> x = - 1 / 2, y = 1 / 2, z = 0 \<rparr> mat4Identity 640 480
       = Some \<lparr> screenX = 160, screenY = 120, screenZ = 1 / 2,
                ndc = \<lparr> x = - 1 / 2, y = 1 / 2, z = 0 \<rparr>, clipW = 1 \<rparr>
   \<and> projectVertex \<lparr> x = 0, y = 0, z = 0 \<rparr> (mat4Perspective 1 1 1 100) 640 480 = None
   \<and> transformTriangleToScreen \<lparr> x = 1, y = 0, z = - 2 \<rparr> \<lparr> x = 0, y = 1, z = - 2 \<rparr>
        \<lparr> x = 0, y = 0, z = 0 \<rparr> (mat4Perspective 1 1 1 100) 640 480 = None
   \<and> renderTriangle (litRenderer False) [0, 1, 2] 0 [1, 0, - 2,  0, 1, - 2,  0, 0, 0] upNormals None
        (mat4Perspective 1 1 1 100) mat4Identity = Inr (litRenderer False)"
  using projectVertex_viewport [of "\<lparr> x = - 1 / 2, y = 1 / 2, z = 0 \<rparr>" mat4Identity 640 480]
    projectVertex_viewport [where pos = "\<lparr> x = 0, y = 0, z = 0 \<rparr>"
       and mvp = "mat4Perspective 1 1 1 100" and wd = 640 and ht = 480
       and a = "\<lparr> x = 1, y = 0, z = - 2 \<rparr>" and b = "\<lparr> x = 0, y = 1, z = - 2 \<rparr>"
       and c = "\<lparr> x = 0, y = 0, z = 0 \<rparr>" and r = "litRenderer False" and idx = "[0, 1, 2]"
       and i = 0 and verts = "[1, 0, - 2,  0, 1, - 2,  0, 0, 0]" and normals = upNormals
       and uvs = None and modelMat = mat4Identity]
  by (simp add: projectVertex_def transformTriangleToScreen_def mat4Identity_def
        mat4Perspective_def mat4MulVec4_def vertexAt_def Let_def fl64_simps)

subsection \<open>The depth of the near and the far plane\<close>

text \<open>
  The screen depth of a point on the view axis at distance \<open>d\<close>, with the roundings of
  \<open>mat4Perspective\<close>, \<open>mat4MulVec4\<close> and \<open>projectVertex\<close> in the order of the code. The field
  of view and the aspect ratio only scale \<open>x\<close> and \<open>y\<close>, which are 0 here.
\<close>

lemma perspective_screenZ:
  assumes "fl64 d = d" "d \<noteq> 0"
  shows "map_option screenZ
           (projectVertex \<lparr> x = 0, y = 0, z = - d \<rparr> (mat4Perspective fovy aspect near far) wd ht)
         = Some (fl64 (fl64 (fl64 (fl64 (fl64
               (fl64 (fl64 (far + near) * fl64 (1 / fl64 (near - far))) * (- d))
               + fl64 (fl64 (fl64 (2 * far) * near) * fl64 (1 / fl64 (near - far)))) / d) * 0.5) + 0.5))"
  using assms
  by (simp add: projectVertex_def mat4MulVec4_def mat4Perspective_def Let_def fl64_zero fl64_idem
        fl64_minus)

text \<open>The roundings on the way to the near depth for \<open>near = 1\<close>, \<open>far = 6\<close>.\<close>

lemma fl64_fifth: "fl64 (1 / 5) = 3602879701896397 / 2 ^ 54"
  by (subst fl64_value [where e = "- 3" and n = 7205759403792794])
     (simp_all add: roundHalfEven_def Let_def power_int_minus)

lemma fl64_seven_fifths:
  "fl64 (7 * (3602879701896397 / 2 ^ 54)) = 6305039478318695 / 2 ^ 52"
  by (subst fl64_value [where e = 0 and n = 6305039478318695])
     (simp_all add: roundHalfEven_def Let_def power_int_minus)

lemma fl64_twelve_fifths:
  "fl64 (12 * (3602879701896397 / 2 ^ 54)) = 5404319552844596 / 2 ^ 51"
  by (subst fl64_value [where e = 1 and n = 5404319552844596])
     (simp_all add: roundHalfEven_def Let_def power_int_minus)

lemma near_depth_1_6:
  "fl64 (fl64 (fl64 (fl64 (fl64
               (fl64 (fl64 (6 + 1) * fl64 (1 / fl64 (1 - 6))) * (- 1))
               + fl64 (fl64 (fl64 (2 * 6) * 1) * fl64 (1 / fl64 (1 - 6)))) / 1) * 0.5) + 0.5)
     = - (1 / 2 ^ 53)"
proof -
  have d: "fl64 (1 - 6) = - 5" by (simp add: fl64_simps)
  have nf: "fl64 (1 / - 5) = - (3602879701896397 / 2 ^ 54)"
    using fl64_fifth by (simp add: fl64_minus)
  have sm: "fl64 (6 + 1) = 7" by (simp add: fl64_simps)
  have ma: "fl64 (7 * - (3602879701896397 / 2 ^ 54)) = - (6305039478318695 / 2 ^ 52)"
    using fl64_seven_fifths by (simp add: fl64_minus)
  have tw: "fl64 (2 * 6) = 12" "fl64 (12 * 1) = 12" by (simp_all add: fl64_simps)
  have mb: "fl64 (12 * - (3602879701896397 / 2 ^ 54)) = - (5404319552844596 / 2 ^ 51)"
    using fl64_twelve_fifths by (simp add: fl64_minus)
  have pz: "fl64 (- (6305039478318695 / 2 ^ 52) * - 1) = 6305039478318695 / 2 ^ 52"
    by (subst fl64_exact [where m = 6305039478318695 and k = "- 52"])
       (simp_all add: power_int_minus)
  have cz: "fl64 (6305039478318695 / 2 ^ 52 + - (5404319552844596 / 2 ^ 51))
              = - (4503599627370497 / 2 ^ 52)"
    by (subst fl64_exact [where m = "- 4503599627370497" and k = "- 52"])
       (simp_all add: power_int_minus)
  have q: "fl64 (- (4503599627370497 / 2 ^ 52) / 1) = - (4503599627370497 / 2 ^ 52)"
    by (subst fl64_exact [where m = "- 4503599627370497" and k = "- 52"])
       (simp_all add: power_int_minus)
  have h: "fl64 (- (4503599627370497 / 2 ^ 52) * 0.5) = - (4503599627370497 / 2 ^ 53)"
    by (subst fl64_exact [where m = "- 4503599627370497" and k = "- 53"])
       (simp_all add: power_int_minus)
  have sz: "fl64 (- (4503599627370497 / 2 ^ 53) + 0.5) = - (1 / 2 ^ 53)"
    by (subst fl64_exact [where m = "- 1" and k = "- 53"]) (simp_all add: power_int_minus)
  show ?thesis unfolding d nf sm ma tw mb pz cz q h sz by (rule refl)
qed


text \<open>The same for \<open>near = 1\<close> and the next double above it as \<open>far\<close>.\<close>

lemma near_depth_1_next:
  "fl64 (fl64 (fl64 (fl64 (fl64
               (fl64 (fl64 ((1 + 1 / 2 ^ 52) + 1) * fl64 (1 / fl64 (1 - (1 + 1 / 2 ^ 52)))) * (- 1))
               + fl64 (fl64 (fl64 (2 * (1 + 1 / 2 ^ 52)) * 1) * fl64 (1 / fl64 (1 - (1 + 1 / 2 ^ 52)))))
             / 1) * 0.5) + 0.5)
     = - (1 / 2)"
proof -
  have d: "fl64 (1 - (1 + 1 / 2 ^ 52)) = - (1 / 2 ^ 52)"
    by (subst fl64_exact [where m = "- 1" and k = "- 52"]) (simp_all add: power_int_minus)
  have nf: "fl64 (1 / - (1 / 2 ^ 52)) = - (2 ^ 52)"
    by (subst fl64_exact [where m = "- 1" and k = 52]) simp_all
  have sm: "fl64 ((1 + 1 / 2 ^ 52) + 1) = 2"
    by (subst fl64_value [where e = 1 and n = 4503599627370496])
       (simp_all add: roundHalfEven_def Let_def power_int_minus)
  have ma: "fl64 (2 * - (2 ^ 52)) = - (2 ^ 53)"
    by (subst fl64_exact [where m = "- 1" and k = 53]) simp_all
  have tw: "fl64 (2 * (1 + 1 / 2 ^ 52)) = 2 + 1 / 2 ^ 51"
    by (subst fl64_exact [where m = 4503599627370497 and k = "- 51"]) (simp_all add: power_int_minus)
  have tn: "fl64 ((2 + 1 / 2 ^ 51) * 1) = 2 + 1 / 2 ^ 51"
    by (subst fl64_exact [where m = 4503599627370497 and k = "- 51"]) (simp_all add: power_int_minus)
  have mb: "fl64 ((2 + 1 / 2 ^ 51) * - (2 ^ 52)) = - (2 ^ 53 + 2)"
    by (subst fl64_exact [where m = "- 4503599627370497" and k = 1]) simp_all
  have pz: "fl64 (- (2 ^ 53) * - 1) = 2 ^ 53"
    by (subst fl64_exact [where m = 1 and k = 53]) simp_all
  have cz: "fl64 (2 ^ 53 + - (2 ^ 53 + 2)) = - 2" by (simp add: fl64_simps)
  have q: "fl64 (- 2 / 1) = - 2" "fl64 (- 2 * 0.5) = - 1" "fl64 (- 1 + 0.5) = - (1 / 2)"
    by (simp_all add: fl64_simps)
  show ?thesis unfolding d nf sm ma tw tn mb pz cz q by (rule refl)
qed

text \<open>
  In binary64 the two depths are not 0 and 1. For \<open>near = 1\<close> and \<open>far = 6\<close> the quotient
  \<open>1 / (near - far)\<close> is rounded, and the centre of the near plane gets the screen depth
  \<open>- 1 / 2 ^ 53\<close>, outside the range from 0 to 1. For \<open>near = 1\<close> and \<open>far\<close> the next double
  above 1, the sum \<open>far + near\<close> is rounded to 2, and the centre of the near plane gets the
  screen depth \<open>- 1 / 2\<close>: without a bound on the ratio of the two planes the error is not
  small either.
\<close>

theorem perspective_depth_inexact:
  "map_option screenZ
     (projectVertex \<lparr> x = 0, y = 0, z = - 1 \<rparr> (mat4Perspective 1 2 1 6) 640 480)
     = Some (- (1 / 2 ^ 53))
   \<and> map_option screenZ
     (projectVertex \<lparr> x = 0, y = 0, z = - 1 \<rparr> (mat4Perspective 1 2 1 (1 + 1 / 2 ^ 52)) 640 480)
     = Some (- (1 / 2))"
  unfolding perspective_screenZ [OF fl64_one one_neq_zero] near_depth_1_6 near_depth_1_next
  by simp

text \<open>
  C8, as the code has it. For doubles \<open>near\<close> and \<open>far\<close> with \<open>2 ^ -100 \<le> near\<close>,
  \<open>2 * near \<le> far\<close> and \<open>far \<le> 2 ^ 100\<close>, and every field of view, aspect ratio, width and
  height, the projection of \<open>(0, 0, - near)\<close> through \<open>mat4Perspective fovy aspect near far\<close>
  succeeds with a screen depth within \<open>2 ^ -48\<close> of 0, and the projection of
  \<open>(0, 0, - far)\<close> succeeds with a screen depth within \<open>2 ^ -48\<close> of 1.
\<close>

theorem perspective_depth:
  assumes rep: "fl64 near = near" "fl64 far = far"
    and rng: "2 powi (- 100) \<le> near" "2 * near \<le> far" "far \<le> 2 powi 100"
  shows "\<exists>zn zf.
           map_option screenZ
             (projectVertex \<lparr> x = 0, y = 0, z = - near \<rparr> (mat4Perspective fovy aspect near far) wd ht)
             = Some zn
         \<and> \<bar>zn\<bar> \<le> 2 powi (- 48)
         \<and> map_option screenZ
             (projectVertex \<lparr> x = 0, y = 0, z = - far \<rparr> (mat4Perspective fovy aspect near far) wd ht)
             = Some zf
         \<and> \<bar>zf - 1\<bar> \<le> 2 powi (- 48)"
proof -
  define ma where "ma = fl64 (fl64 (far + near) * fl64 (1 / fl64 (near - far)))"
  define mb where "mb = fl64 (fl64 (fl64 (2 * far) * near) * fl64 (1 / fl64 (near - far)))"
  have npos: "0 < near" using rng(1) by (smt (verit) two_powi_pos)
  then have fpos: "0 < far" using rng(2) by simp
  have nle: "near \<le> 2 powi 100" using rng(2,3) npos by simp
  have "(2::real) powi (- 100) \<le> near" by fact
  then have fge: "2 powi (- 100) \<le> far" using rng(2) npos by simp
  obtain en where en: "fl64 (ma * (- near)) + mb = (- 1) * near * (1 + en)"
      "\<bar>en\<bar> \<le> 42 * unitRoundoff"
    using perspective_clip_z(1) [OF rng] unfolding ma_def mb_def by blast
  obtain ef where ef: "fl64 (ma * (- far)) + mb = 1 * far * (1 + ef)"
      "\<bar>ef\<bar> \<le> 42 * unitRoundoff"
    using perspective_clip_z(2) [OF rng] unfolding ma_def mb_def by blast
  define zn where "zn = fl64 (fl64 (fl64 (fl64 (fl64 (ma * (- near)) + mb) / near) * 0.5) + 0.5)"
  define zf where "zf = fl64 (fl64 (fl64 (fl64 (fl64 (ma * (- far)) + mb) / far) * 0.5) + 0.5)"
  have "\<bar>zn - ((- 1) * 0.5 + 0.5)\<bar> \<le> 2 powi (- 48)"
    unfolding zn_def en(1) using rng(1) nle en(2) by (intro depth_tail) simp_all
  then have a: "\<bar>zn\<bar> \<le> 2 powi (- 48)" by simp
  have "\<bar>zf - (1 * 0.5 + 0.5)\<bar> \<le> 2 powi (- 48)"
    unfolding zf_def ef(1) using fge rng(3) ef(2) by (intro depth_tail) simp_all
  then have b: "\<bar>zf - 1\<bar> \<le> 2 powi (- 48)" by simp
  have pn: "map_option screenZ
             (projectVertex \<lparr> x = 0, y = 0, z = - near \<rparr> (mat4Perspective fovy aspect near far) wd ht)
             = Some zn"
    unfolding zn_def ma_def mb_def using npos by (intro perspective_screenZ rep) simp
  have pf: "map_option screenZ
             (projectVertex \<lparr> x = 0, y = 0, z = - far \<rparr> (mat4Perspective fovy aspect near far) wd ht)
             = Some zf"
    unfolding zf_def ma_def mb_def using fpos by (intro perspective_screenZ rep) simp
  show ?thesis using pn pf a b by blast
qed

text \<open>At \<open>near = 1\<close> and \<open>far = 6\<close> on a 640 by 480 screen.\<close>

theorem perspective_depth_witness:
  "fl64 1 = 1 \<and> fl64 6 = 6 \<and> 2 powi (- 100) \<le> (1::real) \<and> 2 * (1::real) \<le> 6 \<and> (6::real) \<le> 2 powi 100
   \<and> \<bar>the (map_option screenZ
         (projectVertex \<lparr> x = 0, y = 0, z = - 1 \<rparr> (mat4Perspective 1 2 1 6) 640 480))\<bar>
       \<le> 2 powi (- 48)
   \<and> \<bar>the (map_option screenZ
         (projectVertex \<lparr> x = 0, y = 0, z = - 6 \<rparr> (mat4Perspective 1 2 1 6) 640 480)) - 1\<bar>
       \<le> 2 powi (- 48)"
proof -
  have h: "fl64 1 = 1" "fl64 6 = 6" "2 powi (- 100) \<le> (1::real)" "2 * (1::real) \<le> 6"
    "(6::real) \<le> 2 powi 100"
    by (simp_all add: fl64_simps power_int_minus)
  from perspective_depth [OF h, of 1 2 640 480] obtain zn zf where
    a: "map_option screenZ
         (projectVertex \<lparr> x = 0, y = 0, z = - 1 \<rparr> (mat4Perspective 1 2 1 6) 640 480) = Some zn"
    "\<bar>zn\<bar> \<le> 2 powi (- 48)"
    "map_option screenZ
         (projectVertex \<lparr> x = 0, y = 0, z = - 6 \<rparr> (mat4Perspective 1 2 1 6) 640 480) = Some zf"
    "\<bar>zf - 1\<bar> \<le> 2 powi (- 48)"
    by blast
  show ?thesis
    unfolding a(1) a(3) option.sel
    by (intro conjI h a(2) a(4))
qed

subsection \<open>Vectors\<close>

text \<open>
  C9. The length \<open>vlen\<close> of the zero vector is 1, so \<open>vnorm\<close> divides it by 1 and returns the
  zero vector unchanged. For every vector the divisor \<open>vlen a\<close> is different from zero, and
  \<open>vnorm\<close> is the componentwise quotient by it: a function of its argument alone, with no
  branch that raises.
\<close>

theorem vnorm_zero_vector:
  "vlen \<lparr> x = 0, y = 0, z = 0 \<rparr> = 1
   \<and> vnorm \<lparr> x = 0, y = 0, z = 0 \<rparr> = \<lparr> x = 0, y = 0, z = 0 \<rparr>
   \<and> vlen a \<noteq> 0
   \<and> vnorm a = \<lparr> x = x a / vlen a, y = y a / vlen a, z = z a / vlen a \<rparr>"
  by (simp add: vnorm_def vlen_def hypot3_def Let_def)


subsection \<open>Scanline fill\<close>

lemma sort3_cases:
  "sort_key f [a, b, c] =
     (if f b \<le> f c then (if f a \<le> f b then [a, b, c] else if f a \<le> f c then [b, a, c] else [b, c, a])
      else (if f a \<le> f c then [a, c, b] else if f a \<le> f b then [c, a, b] else [c, b, a]))"
  by simp

lemma sort3_equal_keys:
  "f a = f b \<Longrightarrow> f b = f c \<Longrightarrow> sort_key f [a, b, c] = [a, b, c]"
  by simp

text \<open>
  The loop bounds \<open>max 0 \<lceil>h\<rceil> .. min (n - 1) \<lfloor>h\<rfloor>\<close> of a degenerate extent \<open>[h, h]\<close> enclose
  no integer unless \<open>h\<close> is itself an integer in \<open>[0, n - 1]\<close>.
\<close>

lemma degenerate_range_empty:
  fixes h :: real
  assumes "of_int \<lfloor>h\<rfloor> \<noteq> h \<or> h < 0 \<or> real n - 1 < h"
  shows "[max 0 \<lceil>h\<rceil> .. min (int n - 1) \<lfloor>h\<rfloor>] = []"
proof -
  have lo: "min (int n - 1) \<lfloor>h\<rfloor> \<le> \<lfloor>h\<rfloor>" "min (int n - 1) \<lfloor>h\<rfloor> \<le> int n - 1" by simp_all
  have hi: "\<lceil>h\<rceil> \<le> max 0 \<lceil>h\<rceil>" "0 \<le> max 0 \<lceil>h\<rceil>" by simp_all
  have "min (int n - 1) \<lfloor>h\<rfloor> < max 0 \<lceil>h\<rceil>"
    using assms
  proof (elim disjE)
    assume "of_int \<lfloor>h\<rfloor> \<noteq> h"
    then have "\<lfloor>h\<rfloor> < \<lceil>h\<rceil>" by (simp add: ceiling_altdef)
    with lo hi show ?thesis by linarith
  next
    assume "h < 0"
    then have "\<lfloor>h\<rfloor> < 0" by linarith
    with lo hi show ?thesis by linarith
  next
    assume "real n - 1 < h"
    then have "int n - 1 < \<lceil>h\<rceil>" by linarith
    with lo hi show ?thesis by linarith
  qed
  then show ?thesis by simp
qed

lemmas scan_defs = drawTriangleScanline_def scanRows_def scanRow_def spanEnds_def spanColumns_def
  plotPixel_def depthTest_def setPixel_def typedGet_def typedSet_def typedIndex_def precomputeEdge_def
  interpolateEdge_def interpolateZ_def packRGBA_def toInt32_def Let_def upto.simps fround_half

text \<open>
  A triangle of height zero on the integer row 1 of a 4 by 2 screen, from \<open>x = 0\<close> to \<open>x = 2\<close>:
  the fill writes the three pixels of that row segment. And row 1 of the triangle
  \<open>(0, 0), (1, 0), (0, 1)\<close>, where both x-intersections are 0: the span of width zero writes
  the pixel \<open>(0, 1)\<close>. (4282153160 is the default colour, \<open>0xFF3C78C8\<close>.)
\<close>

theorem degenerate_spans_write_pixels:
  "drawTriangleScanline (newRenderer 4 2 True (flatOptions False))
      (vertex 0 1 (1 / 2)) (vertex 2 1 (1 / 2)) (vertex 1 1 (1 / 2)) defaultColor
     = \<lparr> width = 4, height = 2, littleEndian = True,
         data32 = [0, 0, 0, 0, 4282153160, 4282153160, 4282153160, 0],
         zBuffer = [Infinity, Infinity, Infinity, Infinity, Depth (1 / 2), Depth (1 / 2), Depth (1 / 2),
                    Infinity],
         mainCamera = None, mainDirectionalLight = None, options = flatOptions False \<rparr>
   \<and> spanEnds (precomputeEdge (vertex 0 0 (1 / 2)) (vertex 0 1 (1 / 2)))
        (precomputeEdge (vertex 0 0 (1 / 2)) (vertex 1 0 (1 / 2)))
        (precomputeEdge (vertex 1 0 (1 / 2)) (vertex 0 1 (1 / 2))) (vertex 1 0 (1 / 2)) 1 = (0, 0)
   \<and> scanRow (precomputeEdge (vertex 0 0 (1 / 2)) (vertex 0 1 (1 / 2)))
        (precomputeEdge (vertex 0 0 (1 / 2)) (vertex 1 0 (1 / 2)))
        (precomputeEdge (vertex 1 0 (1 / 2)) (vertex 0 1 (1 / 2))) (vertex 1 0 (1 / 2)) defaultColor 1
        (newRenderer 2 2 True (flatOptions False))
     = \<lparr> width = 2, height = 2, littleEndian = True,
         data32 = [0, 0, 4282153160, 0],
         zBuffer = [Infinity, Infinity, Depth (1 / 2), Infinity],
         mainCamera = None, mainDirectionalLight = None, options = flatOptions False \<rparr>"
  unfolding newRenderer_2_2 newRenderer_4_2 defaultColor_def
  by (simp add: scan_defs)

text \<open>
  C7, as the code has it. \<open>drawTriangleScanline\<close> and \<open>scanRow\<close> return a renderer for every
  input; they have no branch that raises. A triangle whose three vertices have the same
  \<open>y = h\<close> writes no pixel when \<open>h\<close> is not an integer row of the screen (not an integer, below
  0 or above \<open>height - 1\<close>); a row whose two x-intersections coincide at \<open>s\<close> writes no pixel
  when \<open>s\<close> is not an integer column of the screen. (On an integer row or column of the
  screen the degenerate extent is plotted, as the example above shows.)
\<close>

theorem degenerate_spans:
  "(y va = h \<and> y vb = h \<and> y vc = h
      \<and> (of_int \<lfloor>h\<rfloor> \<noteq> h \<or> h < 0 \<or> real (height r) - 1 < h)
      \<longrightarrow> drawTriangleScanline r va vb vc col = r)
   \<and> (spanEnds edgeAC edgeAB edgeBC mid py = (s, s)
      \<and> (of_int \<lfloor>s\<rfloor> \<noteq> s \<or> s < 0 \<or> real (width r) - 1 < s)
      \<longrightarrow> scanRow edgeAC edgeAB edgeBC mid col py r = r)"
proof (intro conjI impI)
  assume a: "y va = h \<and> y vb = h \<and> y vc = h
      \<and> (of_int \<lfloor>h\<rfloor> \<noteq> h \<or> h < 0 \<or> real (height r) - 1 < h)"
  then have s: "sort_key y [va, vb, vc] = [va, vb, vc]"
    by (intro sort3_equal_keys) simp_all
  have "scanRows (height r) va vb vc = []"
    using a degenerate_range_empty [of h "height r"] by (simp add: scanRows_def)
  then show "drawTriangleScanline r va vb vc col = r"
    unfolding drawTriangleScanline_def s by (simp add: Let_def)
next
  assume a: "spanEnds edgeAC edgeAB edgeBC mid py = (s, s)
      \<and> (of_int \<lfloor>s\<rfloor> \<noteq> s \<or> s < 0 \<or> real (width r) - 1 < s)"
  have "spanColumns (width r) (s, s) = []"
    using a degenerate_range_empty [of s "width r"] by (simp add: spanColumns_def)
  then show "scanRow edgeAC edgeAB edgeBC mid col py r = r"
    using a by (simp add: scanRow_def Let_def)
qed

text \<open>
  A triangle of height zero at \<open>y = 1/2\<close>, and row 0 of a sliver whose edges all lie on
  \<open>x = 1/2\<close>.
\<close>

theorem degenerate_spans_witness:
  "drawTriangleScanline (newRenderer 4 2 True (flatOptions False))
      (vertex 0 (1 / 2) (1 / 2)) (vertex 2 (1 / 2) (1 / 2)) (vertex 1 (1 / 2) (1 / 2)) defaultColor
     = newRenderer 4 2 True (flatOptions False)
   \<and> spanEnds (precomputeEdge (vertex (1 / 2) 0 (1 / 2)) (vertex (1 / 2) 1 (1 / 2)))
        (precomputeEdge (vertex (1 / 2) 0 (1 / 2)) (vertex (1 / 2) 1 (1 / 2)))
        (precomputeEdge (vertex (1 / 2) 1 (1 / 2)) (vertex (1 / 2) 1 (1 / 2))) (vertex (1 / 2) 1 (1 / 2)) 0
       = (1 / 2, 1 / 2)
   \<and> scanRow (precomputeEdge (vertex (1 / 2) 0 (1 / 2)) (vertex (1 / 2) 1 (1 / 2)))
        (precomputeEdge (vertex (1 / 2) 0 (1 / 2)) (vertex (1 / 2) 1 (1 / 2)))
        (precomputeEdge (vertex (1 / 2) 1 (1 / 2)) (vertex (1 / 2) 1 (1 / 2))) (vertex (1 / 2) 1 (1 / 2))
        defaultColor 0 (newRenderer 4 2 True (flatOptions False))
       = newRenderer 4 2 True (flatOptions False)"
  using degenerate_spans
    [where va = "vertex 0 (1 / 2) (1 / 2)" and vb = "vertex 2 (1 / 2) (1 / 2)"
       and vc = "vertex 1 (1 / 2) (1 / 2)" and h = "1 / 2" and s = "1 / 2" and py = 0
       and r = "newRenderer 4 2 True (flatOptions False)" and col = defaultColor
       and edgeAC = "precomputeEdge (vertex (1 / 2) 0 (1 / 2)) (vertex (1 / 2) 1 (1 / 2))"
       and edgeAB = "precomputeEdge (vertex (1 / 2) 0 (1 / 2)) (vertex (1 / 2) 1 (1 / 2))"
       and edgeBC = "precomputeEdge (vertex (1 / 2) 1 (1 / 2)) (vertex (1 / 2) 1 (1 / 2))"
       and mid = "vertex (1 / 2) 1 (1 / 2)"]
  by (simp add: spanEnds_def precomputeEdge_def interpolateEdge_def Let_def newRenderer_4_2)


text \<open>
  The fill reads the positions of its three vertices and nothing else of them: two calls
  whose vertices agree in \<open>x\<close>, \<open>y\<close> and \<open>z\<close> give the same renderer.
\<close>

lemma interpolateEdge_geometry_only:
  assumes "samePoint a a'" "samePoint c c'"
  shows "interpolateEdge (precomputeEdge a c) t = interpolateEdge (precomputeEdge a' c') t"
  using assms by (simp add: samePoint_def precomputeEdge_def interpolateEdge_def)

lemma spanEnds_geometry_only:
  assumes "samePoint a a'" "samePoint b b'" "samePoint c c'"
  shows "spanEnds (precomputeEdge a c) (precomputeEdge a b) (precomputeEdge b c) b py
       = spanEnds (precomputeEdge a' c') (precomputeEdge a' b') (precomputeEdge b' c') b' py"
proof -
  have "y b = y b'" using assms by (simp add: samePoint_def)
  then show ?thesis
    unfolding spanEnds_def
      interpolateEdge_geometry_only [OF assms(1) assms(3)]
      interpolateEdge_geometry_only [OF assms(1) assms(2)]
      interpolateEdge_geometry_only [OF assms(2) assms(3)]
    by simp
qed

lemma interpolateZ_geometry_only:
  assumes "samePoint a a'" "samePoint c c'"
  shows "interpolateZ (precomputeEdge a c) e f px py t = interpolateZ (precomputeEdge a' c') e' f' px py t"
  using assms by (simp add: samePoint_def precomputeEdge_def interpolateZ_def)

lemma scanRow_geometry_only:
  assumes "samePoint a a'" "samePoint b b'" "samePoint c c'"
  shows "scanRow (precomputeEdge a c) (precomputeEdge a b) (precomputeEdge b c) b col
       = scanRow (precomputeEdge a' c') (precomputeEdge a' b') (precomputeEdge b' c') b' col"
proof (intro ext)
  fix py r
  show "scanRow (precomputeEdge a c) (precomputeEdge a b) (precomputeEdge b c) b col py r
      = scanRow (precomputeEdge a' c') (precomputeEdge a' b') (precomputeEdge b' c') b' col py r"
    unfolding scanRow_def spanEnds_geometry_only [OF assms]
      interpolateZ_geometry_only [OF assms(1) assms(3),
        of "precomputeEdge a b" "precomputeEdge b c" _ _ _ "precomputeEdge a' b'" "precomputeEdge b' c'"]
    by (rule refl)
qed

lemma scanRows_geometry_only:
  assumes "samePoint a a'" "samePoint b b'" "samePoint c c'"
  shows "scanRows ht a b c = scanRows ht a' b' c'"
  using assms by (simp add: samePoint_def scanRows_def)

lemma sort3_same_points:
  assumes "samePoint u0 v0" "samePoint u1 v1" "samePoint u2 v2"
  shows "\<exists>a b c a' b' c'. sort_key y [u0, u1, u2] = [a, b, c] \<and> sort_key y [v0, v1, v2] = [a', b', c']
           \<and> samePoint a a' \<and> samePoint b b' \<and> samePoint c c'"
proof -
  have ys: "y u0 = y v0" "y u1 = y v1" "y u2 = y v2"
    using assms by (simp_all add: samePoint_def)
  show ?thesis
  proof (cases "y v1 \<le> y v2")
    case True
    then show ?thesis unfolding sort3_cases ys using assms by (simp split: if_splits)
  next
    case False
    then show ?thesis unfolding sort3_cases ys using assms by (simp split: if_splits)
  qed
qed

lemma drawTriangleScanline_geometry_only:
  assumes "samePoint u0 v0" "samePoint u1 v1" "samePoint u2 v2"
  shows "drawTriangleScanline r u0 u1 u2 col = drawTriangleScanline r v0 v1 v2 col"
proof -
  obtain a b c a' b' c' where s: "sort_key y [u0, u1, u2] = [a, b, c]"
      "sort_key y [v0, v1, v2] = [a', b', c']"
    and p: "samePoint a a'" "samePoint b b'" "samePoint c c'"
    using sort3_same_points [OF assms] by blast
  show ?thesis
    unfolding drawTriangleScanline_def s
    by (simp add: Let_def scanRow_geometry_only [OF p] scanRows_geometry_only [OF p])
qed

lemma drawTriangleScanline_ignores_color:
  "drawTriangleScanline r (sv0 \<lparr> color := c0 \<rparr>) (sv1 \<lparr> color := c1 \<rparr>) (sv2 \<lparr> color := c2 \<rparr>) col
     = drawTriangleScanline r sv0 sv1 sv2 col"
  by (rule drawTriangleScanline_geometry_only) (simp_all add: samePoint_def)

text \<open>
  So the colours that \<open>renderBlinnPhongShading\<close> attaches never reach a pixel: with a camera
  set, it draws the triangle in the default colour of \<open>drawTriangleScanline\<close>.
\<close>

lemma renderBlinnPhongShading_default_color:
  assumes "mainCamera r = Some cam"
  shows "renderBlinnPhongShading r sv0 sv1 sv2 v0 v1 v2 normals
           = Inr (drawTriangleScanline r sv0 sv1 sv2 defaultColor)"
  using assms
  by (simp add: renderBlinnPhongShading_def Let_def drawTriangleScanline_ignores_color)

lemma blinnPhongRenderer_eq:
  "blinnPhongRenderer = \<lparr> width = 2, height = 2, littleEndian = True, data32 = [0, 0, 0, 0],
      zBuffer = [Infinity, Infinity, Infinity, Infinity], mainCamera = Some frontCamera,
      mainDirectionalLight = Some frontLight,
      options = \<lparr> shading = Some BlinnPhong, snapVertices = False \<rparr> \<rparr>"
  by (simp add: setDirectionalLight_def setCamera_def newRenderer_2_2)

lemma front_triangle_scan:
  "drawTriangleScanline
      \<lparr> width = 2, height = 2, littleEndian = True, data32 = [0, 0, 0, 0],
        zBuffer = [Infinity, Infinity, Infinity, Infinity], mainCamera = cam,
        mainDirectionalLight = light, options = opts \<rparr>
      (vertex 0 0 (1 / 2)) (vertex 0 1 (1 / 2)) (vertex 1 0 (1 / 2)) \<lparr> x = cr, y = cg, z = cb \<rparr>
     = \<lparr> width = 2, height = 2, littleEndian = True,
         data32 = [push_bit 24 255 OR push_bit 16 (toInt32 cb) OR push_bit 8 (toInt32 cg) OR toInt32 cr,
                   push_bit 24 255 OR push_bit 16 (toInt32 cb) OR push_bit 8 (toInt32 cg) OR toInt32 cr,
                   push_bit 24 255 OR push_bit 16 (toInt32 cb) OR push_bit 8 (toInt32 cg) OR toInt32 cr, 0],
         zBuffer = [Depth (1 / 2), Depth (1 / 2), Depth (1 / 2), Infinity],
         mainCamera = cam, mainDirectionalLight = light, options = opts \<rparr>"
  by (simp add: scan_defs)

text \<open>
  C2 at a concrete input. The Blinn-Phong path is run on a 2 by 2 screen with the camera at
  \<open>(0, 0, 1)\<close>, the light along the negative z axis and all three normals \<open>(0, 0, 1)\<close>, for
  the triangle with screen vertices \<open>(0, 0), (0, 1), (1, 0)\<close>. Each of the three vertex colours
  that \<open>renderBlinnPhongShading\<close> attaches is \<open>(132, 79.2, 39.6)\<close>, so every interpolation
  of them is that colour, packed \<open>4280766340 = 0xFF274F84\<close>. The three covered pixels hold
  \<open>4282153160 = 0xFF3C78C8\<close> instead: the default colour \<open>(200, 120, 60)\<close> of the parameter
  \<open>color\<close>.
\<close>

theorem blinnPhong_writes_default_color:
  "renderBlinnPhongShading blinnPhongRenderer
      (vertex 0 0 (1 / 2)) (vertex 0 1 (1 / 2)) (vertex 1 0 (1 / 2))
      \<lparr> x = - 1, y = 1, z = 0 \<rparr> \<lparr> x = - 1, y = 0, z = 0 \<rparr> \<lparr> x = 0, y = 1, z = 0 \<rparr> upNormals
     = Inr \<lparr> width = 2, height = 2, littleEndian = True,
             data32 = [4282153160, 4282153160, 4282153160, 0],
             zBuffer = [Depth (1 / 2), Depth (1 / 2), Depth (1 / 2), Infinity],
             mainCamera = Some frontCamera, mainDirectionalLight = Some frontLight,
             options = \<lparr> shading = Some BlinnPhong, snapVertices = False \<rparr> \<rparr>
   \<and> computeBlinnPhongLighting \<lparr> x = - 1, y = 1, z = 0 \<rparr> \<lparr> x = 0, y = 0, z = 1 \<rparr>
        (vnorm \<lparr> x = - 0, y = - 0, z = - 1 \<rparr>) (Some frontLight)
       = \<lparr> x = 132, y = 396 / 5, z = 198 / 5 \<rparr>
   \<and> packRGBA blinnPhongRenderer (toInt32 132) (toInt32 (396 / 5)) (toInt32 (198 / 5)) (toInt32 255)
       = 4280766340
   \<and> packRGBA blinnPhongRenderer (toInt32 200) (toInt32 120) (toInt32 60) (toInt32 255) = 4282153160"
proof -
  have cam: "mainCamera blinnPhongRenderer = Some frontCamera"
    by (simp add: setDirectionalLight_def setCamera_def)
  have a: "renderBlinnPhongShading blinnPhongRenderer
      (vertex 0 0 (1 / 2)) (vertex 0 1 (1 / 2)) (vertex 1 0 (1 / 2))
      \<lparr> x = - 1, y = 1, z = 0 \<rparr> \<lparr> x = - 1, y = 0, z = 0 \<rparr> \<lparr> x = 0, y = 1, z = 0 \<rparr> upNormals
     = Inr \<lparr> width = 2, height = 2, littleEndian = True,
             data32 = [4282153160, 4282153160, 4282153160, 0],
             zBuffer = [Depth (1 / 2), Depth (1 / 2), Depth (1 / 2), Infinity],
             mainCamera = Some frontCamera, mainDirectionalLight = Some frontLight,
             options = \<lparr> shading = Some BlinnPhong, snapVertices = False \<rparr> \<rparr>"
    unfolding renderBlinnPhongShading_default_color [OF cam] defaultColor_def
    unfolding blinnPhongRenderer_eq front_triangle_scan
    by (simp add: toInt32_def)
  have b: "computeBlinnPhongLighting \<lparr> x = - 1, y = 1, z = 0 \<rparr> \<lparr> x = 0, y = 0, z = 1 \<rparr>
        (vnorm \<lparr> x = - 0, y = - 0, z = - 1 \<rparr>) (Some frontLight)
       = \<lparr> x = 132, y = 396 / 5, z = 198 / 5 \<rparr>"
    by (simp add: computeBlinnPhongLighting_def vnorm_def vlen_def hypot3_def vdot_def Let_def)
  have c: "packRGBA blinnPhongRenderer (toInt32 132) (toInt32 (396 / 5)) (toInt32 (198 / 5)) (toInt32 255)
       = 4280766340"
    "packRGBA blinnPhongRenderer (toInt32 200) (toInt32 120) (toInt32 60) (toInt32 255) = 4282153160"
    unfolding blinnPhongRenderer_eq by (simp_all add: packRGBA_def toInt32_def)
  show ?thesis using a b c by blast
qed

subsection \<open>Clip, cull and snapping in \<open>renderTriangle\<close>\<close>

text \<open>
  Once the three projections exist, \<open>renderTriangle\<close> is the two tests on the vertices that
  \<open>snapTriangle\<close> returns, followed by the shading stage.
\<close>

lemma renderTriangle_unfold:
  assumes "transformTriangleToScreen (vertexAt idx pos i) (vertexAt idx pos (i + 1))
             (vertexAt idx pos (i + 2)) mvp (real (width r)) (real (height r)) = Some projected"
    and "snapTriangle (snapVertices (options r)) projected = (a, b, c)"
  shows "renderTriangle r idx i pos normals uvs mvp modelMat =
           (if isTriangleClipped a b c (real (width r)) (real (height r)) then Inr r
            else if area2 a b c > 0 then Inr r
            else shadeTriangle r idx i normals uvs modelMat (vertexAt idx pos i)
                   (vertexAt idx pos (i + 1)) (vertexAt idx pos (i + 2)) (a, b, c))"
  using assms by (simp add: renderTriangle_def Let_def)

lemmas project_defs = vertexAt_def transformTriangleToScreen_def projectVertex_def toScreenVertex_def
  mat4MulVec4_def mat4Identity_def Let_def fl64_simps

text \<open>The example scenes, evaluated.\<close>

lemma litRenderer_eq:
  "litRenderer snap = \<lparr> width = 2, height = 2, littleEndian = True, data32 = [0, 0, 0, 0],
      zBuffer = [Infinity, Infinity, Infinity, Infinity], mainCamera = None,
      mainDirectionalLight = Some frontLight, options = flatOptions snap \<rparr>"
  by (simp add: setDirectionalLight_def newRenderer_2_2)

lemma litRenderer_fields:
  "width (litRenderer snap) = 2" "height (litRenderer snap) = 2"
  "snapVertices (options (litRenderer snap)) = snap"
  "shading (options (litRenderer snap)) = Some Flat"
  "mainDirectionalLight (litRenderer snap) = Some frontLight"
  by (simp_all add: setDirectionalLight_def newRenderer_def clearZ_def)

lemma snapped_triangle_scan:
  "drawTriangleScanline
      \<lparr> width = 2, height = 2, littleEndian = True, data32 = [0, 0, 0, 0],
        zBuffer = [Infinity, Infinity, Infinity, Infinity], mainCamera = cam,
        mainDirectionalLight = light, options = opts \<rparr>
      (vertex 0 0 (1 / 2)) (vertex 0 5 (1 / 2)) (vertex 5 0 (1 / 2)) \<lparr> x = cr, y = cg, z = cb \<rparr>
     = \<lparr> width = 2, height = 2, littleEndian = True,
         data32 = [push_bit 24 255 OR push_bit 16 (toInt32 cb) OR push_bit 8 (toInt32 cg) OR toInt32 cr,
                   push_bit 24 255 OR push_bit 16 (toInt32 cb) OR push_bit 8 (toInt32 cg) OR toInt32 cr,
                   push_bit 24 255 OR push_bit 16 (toInt32 cb) OR push_bit 8 (toInt32 cg) OR toInt32 cr,
                   push_bit 24 255 OR push_bit 16 (toInt32 cb) OR push_bit 8 (toInt32 cg) OR toInt32 cr],
         zBuffer = [Depth (1 / 2), Depth (1 / 2), Depth (1 / 2), Depth (1 / 2)],
         mainCamera = cam, mainDirectionalLight = light, options = opts \<rparr>"
  by (simp add: scan_defs)


lemma offscreen_projection:
  "transformTriangleToScreen (vertexAt [0, 1, 2] offscreenPositions 0)
      (vertexAt [0, 1, 2] offscreenPositions (0 + 1)) (vertexAt [0, 1, 2] offscreenPositions (0 + 2))
      offscreenMvp (real (width (litRenderer snap))) (real (height (litRenderer snap)))
   = Some (vertex (- 1) (- 1) (1 / 2), vertex (- 1) 4 (1 / 2), vertex 4 (- 1) (1 / 2))"
  unfolding litRenderer_fields by (simp add: project_defs)


lemma offscreen_snapped:
  "snapTriangle True (vertex (- 1) (- 1) (1 / 2), vertex (- 1) 4 (1 / 2), vertex 4 (- 1) (1 / 2))
     = (vertex 0 0 (1 / 2), vertex 0 5 (1 / 2), vertex 5 0 (1 / 2))"
  by (simp add: snapTriangle_def snapVertexToGrid_def mathRound_def)

lemma snapTriangle_off: "snapTriangle False t = t"
  by (simp add: snapTriangle_def split: prod.splits)

lemma mat4Identity_apply:
  "mat4MulVec4 mat4Identity \<lparr> x = a, y = b, z = c, w = 1 \<rparr>
     = \<lparr> x = fl64 a, y = fl64 b, z = fl64 c, w = 1 \<rparr>"
  by (simp add: mat4MulVec4_def mat4Identity_def fl64_simps)

lemma getScreenVertex_samePoint: "samePoint (getScreenVertex s vi ui ns us) s"
  by (simp add: getScreenVertex_def samePoint_def Let_def)

lemma shadeTriangle_flat_identity:
  assumes "shading (options r) = Some Flat"
  shows "shadeTriangle r idx i normals uvs mat4Identity v0 v1 v2 (s0, s1, s2)
     = renderFlatShading r
         (getScreenVertex s0 (idx ! i * 3) (idx ! i * 2) (Some normals) uvs)
         (getScreenVertex s1 (idx ! (i + 1) * 3) (idx ! (i + 1) * 2) (Some normals) uvs)
         (getScreenVertex s2 (idx ! (i + 2) * 3) (idx ! (i + 2) * 2) (Some normals) uvs)
         (vsub \<lparr> x = fl64 (x v1), y = fl64 (y v1), z = fl64 (z v1) \<rparr>
               \<lparr> x = fl64 (x v0), y = fl64 (y v0), z = fl64 (z v0) \<rparr>)
         (vsub \<lparr> x = fl64 (x v2), y = fl64 (y v2), z = fl64 (z v2) \<rparr>
               \<lparr> x = fl64 (x v0), y = fl64 (y v0), z = fl64 (z v0) \<rparr>)"
  by (simp add: shadeTriangle_def assms mat4Identity_apply Let_def)

lemma flat_color:
  "renderFlatShading (litRenderer snap) sv0 sv1 sv2 \<lparr> x = 0, y = - 1, z = 0 \<rparr> \<lparr> x = 1, y = 0, z = 0 \<rparr>
     = Inr (drawTriangleScanline (litRenderer snap) sv0 sv1 sv2 \<lparr> x = 132, y = 396 / 5, z = 198 / 5 \<rparr>)"
  by (simp add: renderFlatShading_def setDirectionalLight_def vnorm_def vlen_def hypot3_def vcross_def
        vdot_def Let_def)

lemma offscreen_shade:
  "shadeTriangle (litRenderer True) [0, 1, 2] 0 upNormals None mat4Identity
      (vertexAt [0, 1, 2] offscreenPositions 0) (vertexAt [0, 1, 2] offscreenPositions (0 + 1))
      (vertexAt [0, 1, 2] offscreenPositions (0 + 2))
      (vertex 0 0 (1 / 2), vertex 0 5 (1 / 2), vertex 5 0 (1 / 2))
   = Inr (drawTriangleScanline (litRenderer True) (vertex 0 0 (1 / 2)) (vertex 0 5 (1 / 2))
            (vertex 5 0 (1 / 2)) \<lparr> x = 132, y = 396 / 5, z = 198 / 5 \<rparr>)"
proof -
  have e: "vsub \<lparr> x = fl64 (x (vertexAt [0, 1, 2] offscreenPositions (0 + 1))),
                  y = fl64 (y (vertexAt [0, 1, 2] offscreenPositions (0 + 1))),
                  z = fl64 (z (vertexAt [0, 1, 2] offscreenPositions (0 + 1))) \<rparr>
                \<lparr> x = fl64 (x (vertexAt [0, 1, 2] offscreenPositions 0)),
                  y = fl64 (y (vertexAt [0, 1, 2] offscreenPositions 0)),
                  z = fl64 (z (vertexAt [0, 1, 2] offscreenPositions 0)) \<rparr> = \<lparr> x = 0, y = - 1, z = 0 \<rparr>"
    "vsub \<lparr> x = fl64 (x (vertexAt [0, 1, 2] offscreenPositions (0 + 2))),
                  y = fl64 (y (vertexAt [0, 1, 2] offscreenPositions (0 + 2))),
                  z = fl64 (z (vertexAt [0, 1, 2] offscreenPositions (0 + 2))) \<rparr>
                \<lparr> x = fl64 (x (vertexAt [0, 1, 2] offscreenPositions 0)),
                  y = fl64 (y (vertexAt [0, 1, 2] offscreenPositions 0)),
                  z = fl64 (z (vertexAt [0, 1, 2] offscreenPositions 0)) \<rparr> = \<lparr> x = 1, y = 0, z = 0 \<rparr>"
    by (simp_all add: vsub_def vertexAt_def fl64_simps)
  show ?thesis
    unfolding shadeTriangle_flat_identity [OF litRenderer_fields(4)] e flat_color
    by (rule arg_cong [where f = Inr])
       (rule drawTriangleScanline_geometry_only; rule getScreenVertex_samePoint)
qed

lemma offscreen_render_unsnapped:
  "renderTriangle (litRenderer False) [0, 1, 2] 0 offscreenPositions upNormals None offscreenMvp
        mat4Identity = Inr (litRenderer False)"
proof -
  have b: "isTriangleClipped (vertex (- 1) (- 1) (1 / 2)) (vertex (- 1) 4 (1 / 2))
             (vertex 4 (- 1) (1 / 2)) 2 2"
    by (simp add: isTriangleClipped_def outOfBounds_def)
  have sn: "snapTriangle (snapVertices (options (litRenderer False)))
              (vertex (- 1) (- 1) (1 / 2), vertex (- 1) 4 (1 / 2), vertex 4 (- 1) (1 / 2))
            = (vertex (- 1) (- 1) (1 / 2), vertex (- 1) 4 (1 / 2), vertex 4 (- 1) (1 / 2))"
    unfolding litRenderer_fields by (rule snapTriangle_off)
  show ?thesis
    unfolding renderTriangle_unfold [OF offscreen_projection sn] litRenderer_fields
    using b by simp
qed

lemma offscreen_render_snapped:
  "renderTriangle (litRenderer True) [0, 1, 2] 0 offscreenPositions upNormals None offscreenMvp
        mat4Identity
       = Inr \<lparr> width = 2, height = 2, littleEndian = True,
               data32 = [4280766340, 4280766340, 4280766340, 4280766340],
               zBuffer = [Depth (1 / 2), Depth (1 / 2), Depth (1 / 2), Depth (1 / 2)],
               mainCamera = None, mainDirectionalLight = Some frontLight,
               options = flatOptions True \<rparr>"
proof -
  have sn': "snapTriangle (snapVertices (options (litRenderer True)))
              (vertex (- 1) (- 1) (1 / 2), vertex (- 1) 4 (1 / 2), vertex 4 (- 1) (1 / 2))
            = (vertex 0 0 (1 / 2), vertex 0 5 (1 / 2), vertex 5 0 (1 / 2))"
    unfolding litRenderer_fields by (rule offscreen_snapped)
  have nc: "\<not> isTriangleClipped (vertex 0 0 (1 / 2)) (vertex 0 5 (1 / 2)) (vertex 5 0 (1 / 2))
               (real (width (litRenderer True))) (real (height (litRenderer True)))"
    unfolding litRenderer_fields by (simp add: isTriangleClipped_def outOfBounds_def)
  have na: "\<not> area2 (vertex 0 0 (1 / 2)) (vertex 0 5 (1 / 2)) (vertex 5 0 (1 / 2)) > 0"
    by (simp add: area2_def)
  have "renderTriangle (litRenderer True) [0, 1, 2] 0 offscreenPositions upNormals None offscreenMvp
        mat4Identity
      = Inr (drawTriangleScanline (litRenderer True) (vertex 0 0 (1 / 2)) (vertex 0 5 (1 / 2))
            (vertex 5 0 (1 / 2)) \<lparr> x = 132, y = 396 / 5, z = 198 / 5 \<rparr>)"
    unfolding renderTriangle_unfold [OF offscreen_projection sn'] offscreen_shade
    using nc na by simp
  also have "\<dots> = Inr \<lparr> width = 2, height = 2, littleEndian = True,
               data32 = [4280766340, 4280766340, 4280766340, 4280766340],
               zBuffer = [Depth (1 / 2), Depth (1 / 2), Depth (1 / 2), Depth (1 / 2)],
               mainCamera = None, mainDirectionalLight = Some frontLight,
               options = flatOptions True \<rparr>"
    unfolding litRenderer_eq snapped_triangle_scan by (simp add: toInt32_def)
  finally show ?thesis .
qed

lemma offscreen_projection_2_2:
  "transformTriangleToScreen (vertexAt [0, 1, 2] offscreenPositions 0)
      (vertexAt [0, 1, 2] offscreenPositions 1) (vertexAt [0, 1, 2] offscreenPositions 2)
      offscreenMvp 2 2
     = Some (vertex (- 1) (- 1) (1 / 2), vertex (- 1) 4 (1 / 2), vertex 4 (- 1) (1 / 2))"
  by (simp add: project_defs)

text \<open>
  A triangle whose projections \<open>(-1, -1), (-1, 4), (4, -1)\<close> all lie off the 2 by 2 screen.
  With snapping disabled it is rejected as off-screen and the renderer is unchanged. With
  snapping enabled the same triangle is snapped to \<open>(0, 0), (0, 5), (5, 0)\<close> first, passes both
  tests and fills all four pixels: the outcome of the clip and cull stage depends on the
  option.
\<close>

theorem snapping_changes_clip_outcome:
  "transformTriangleToScreen (vertexAt [0, 1, 2] offscreenPositions 0)
      (vertexAt [0, 1, 2] offscreenPositions 1) (vertexAt [0, 1, 2] offscreenPositions 2)
      offscreenMvp 2 2
     = Some (vertex (- 1) (- 1) (1 / 2), vertex (- 1) 4 (1 / 2), vertex 4 (- 1) (1 / 2))
   \<and> isTriangleClipped (vertex (- 1) (- 1) (1 / 2)) (vertex (- 1) 4 (1 / 2)) (vertex 4 (- 1) (1 / 2)) 2 2
   \<and> renderTriangle (litRenderer False) [0, 1, 2] 0 offscreenPositions upNormals None offscreenMvp
        mat4Identity = Inr (litRenderer False)
   \<and> renderTriangle (litRenderer True) [0, 1, 2] 0 offscreenPositions upNormals None offscreenMvp
        mat4Identity
       = Inr \<lparr> width = 2, height = 2, littleEndian = True,
               data32 = [4280766340, 4280766340, 4280766340, 4280766340],
               zBuffer = [Depth (1 / 2), Depth (1 / 2), Depth (1 / 2), Depth (1 / 2)],
               mainCamera = None, mainDirectionalLight = Some frontLight,
               options = flatOptions True \<rparr>"
proof -
  have b: "isTriangleClipped (vertex (- 1) (- 1) (1 / 2)) (vertex (- 1) 4 (1 / 2))
             (vertex 4 (- 1) (1 / 2)) 2 2"
    by (simp add: isTriangleClipped_def outOfBounds_def)
  show ?thesis
    using offscreen_projection_2_2 b offscreen_render_unsnapped offscreen_render_snapped by blast
qed


lemma front_projection:
  "transformTriangleToScreen (vertexAt [0, 1, 2] frontPositions 0)
      (vertexAt [0, 1, 2] frontPositions (0 + 1)) (vertexAt [0, 1, 2] frontPositions (0 + 2))
      mat4Identity (real (width (litRenderer snap))) (real (height (litRenderer snap)))
   = Some (vertex 0 0 (1 / 2), vertex 0 1 (1 / 2), vertex 1 0 (1 / 2))"
  unfolding litRenderer_fields by (simp add: project_defs)


lemma example_in_range: "triangleInRange [0, 1, 2] [p0, p1, p2, p3, p4, p5, p6, p7, p8] 0"
  by (simp add: triangleInRange_def vertexInRange_def)

lemma snapTriangle_litRenderer_off:
  "snapTriangle (snapVertices (options (litRenderer False))) t = t"
  unfolding litRenderer_fields by (rule snapTriangle_off)

subsection \<open>The pixel of a top vertex\<close>
























lemma front_shade:
  "shadeTriangle (litRenderer False) [0, 1, 2] 0 upNormals None mat4Identity
      (vertexAt [0, 1, 2] frontPositions 0) (vertexAt [0, 1, 2] frontPositions (0 + 1))
      (vertexAt [0, 1, 2] frontPositions (0 + 2))
      (vertex 0 0 (1 / 2), vertex 0 1 (1 / 2), vertex 1 0 (1 / 2))
   = Inr (drawTriangleScanline (litRenderer False) (vertex 0 0 (1 / 2)) (vertex 0 1 (1 / 2))
            (vertex 1 0 (1 / 2)) \<lparr> x = 132, y = 396 / 5, z = 198 / 5 \<rparr>)"
proof -
  have e: "vsub \<lparr> x = fl64 (x (vertexAt [0, 1, 2] frontPositions (0 + 1))),
                  y = fl64 (y (vertexAt [0, 1, 2] frontPositions (0 + 1))),
                  z = fl64 (z (vertexAt [0, 1, 2] frontPositions (0 + 1))) \<rparr>
                \<lparr> x = fl64 (x (vertexAt [0, 1, 2] frontPositions 0)),
                  y = fl64 (y (vertexAt [0, 1, 2] frontPositions 0)),
                  z = fl64 (z (vertexAt [0, 1, 2] frontPositions 0)) \<rparr> = \<lparr> x = 0, y = - 1, z = 0 \<rparr>"
    "vsub \<lparr> x = fl64 (x (vertexAt [0, 1, 2] frontPositions (0 + 2))),
                  y = fl64 (y (vertexAt [0, 1, 2] frontPositions (0 + 2))),
                  z = fl64 (z (vertexAt [0, 1, 2] frontPositions (0 + 2))) \<rparr>
                \<lparr> x = fl64 (x (vertexAt [0, 1, 2] frontPositions 0)),
                  y = fl64 (y (vertexAt [0, 1, 2] frontPositions 0)),
                  z = fl64 (z (vertexAt [0, 1, 2] frontPositions 0)) \<rparr> = \<lparr> x = 1, y = 0, z = 0 \<rparr>"
    by (simp_all add: vsub_def vertexAt_def fl64_simps)
  show ?thesis
    unfolding shadeTriangle_flat_identity [OF litRenderer_fields(4)] e flat_color
    by (rule arg_cong [where f = Inr])
       (rule drawTriangleScanline_geometry_only; rule getScreenVertex_samePoint)
qed

lemma front_render:
  "renderTriangle (litRenderer False) [0, 1, 2] 0 frontPositions upNormals None mat4Identity
        mat4Identity
       = Inr \<lparr> width = 2, height = 2, littleEndian = True,
               data32 = [4280766340, 4280766340, 4280766340, 0],
               zBuffer = [Depth (1 / 2), Depth (1 / 2), Depth (1 / 2), Infinity],
               mainCamera = None, mainDirectionalLight = Some frontLight,
               options = flatOptions False \<rparr>"
proof -
  have nc: "\<not> isTriangleClipped (vertex 0 0 (1 / 2)) (vertex 0 1 (1 / 2)) (vertex 1 0 (1 / 2))
               (real (width (litRenderer False))) (real (height (litRenderer False)))"
    unfolding litRenderer_fields by (simp add: isTriangleClipped_def outOfBounds_def)
  have na: "\<not> area2 (vertex 0 0 (1 / 2)) (vertex 0 1 (1 / 2)) (vertex 1 0 (1 / 2)) > 0"
    by (simp add: area2_def)
  have "renderTriangle (litRenderer False) [0, 1, 2] 0 frontPositions upNormals None mat4Identity
        mat4Identity
      = Inr (drawTriangleScanline (litRenderer False) (vertex 0 0 (1 / 2)) (vertex 0 1 (1 / 2))
            (vertex 1 0 (1 / 2)) \<lparr> x = 132, y = 396 / 5, z = 198 / 5 \<rparr>)"
    unfolding renderTriangle_unfold [OF front_projection snapTriangle_litRenderer_off] front_shade
    using nc na by simp
  also have "\<dots> = Inr \<lparr> width = 2, height = 2, littleEndian = True,
               data32 = [4280766340, 4280766340, 4280766340, 0],
               zBuffer = [Depth (1 / 2), Depth (1 / 2), Depth (1 / 2), Infinity],
               mainCamera = None, mainDirectionalLight = Some frontLight,
               options = flatOptions False \<rparr>"
    unfolding litRenderer_eq front_triangle_scan by (simp add: toInt32_def)
  finally show ?thesis .
qed








text \<open>
  C3, as the code has it. The screen X and Y are rounded to the grid of pitch 5 before the
  off-screen test and the back-face test: with \<open>snapVertices\<close> enabled both tests are evaluated
  on the snapped vertices, with it disabled on the projected ones, and the vertices that were
  tested are the ones handed to the shading stage.
\<close>

theorem renderTriangle_snap_first:
  assumes rng: "triangleInRange idx pos i"
    and tr: "transformTriangleToScreen (vertexAt idx pos i) (vertexAt idx pos (i + 1))
             (vertexAt idx pos (i + 2)) mvp (real (width r)) (real (height r)) = Some (p0, p1, p2)"
  shows "renderTriangle r idx i pos normals uvs mvp modelMat =
           (let sverts = (if snapVertices (options r)
                          then (snapVertexToGrid p0 5, snapVertexToGrid p1 5, snapVertexToGrid p2 5)
                          else (p0, p1, p2))
            in if clipCullRejects sverts (real (width r)) (real (height r)) then Inr r
               else shadeTriangle r idx i normals uvs modelMat (vertexAt idx pos i)
                      (vertexAt idx pos (i + 1)) (vertexAt idx pos (i + 2)) sverts)"
  using tr by (simp add: renderTriangle_def Let_def snapTriangle_def clipCullRejects_def)

text \<open>
  The off-screen example with snapping enabled: the projected vertices would be rejected, the
  snapped ones are not, and the triangle reaches the shading stage.
\<close>

theorem renderTriangle_snap_first_witness:
  "triangleInRange [0, 1, 2] offscreenPositions 0
   \<and> clipCullRejects (vertex (- 1) (- 1) (1 / 2), vertex (- 1) 4 (1 / 2), vertex 4 (- 1) (1 / 2)) 2 2
   \<and> \<not> clipCullRejects (vertex 0 0 (1 / 2), vertex 0 5 (1 / 2), vertex 5 0 (1 / 2)) 2 2
   \<and> renderTriangle (litRenderer True) [0, 1, 2] 0 offscreenPositions upNormals None offscreenMvp
        mat4Identity
       = shadeTriangle (litRenderer True) [0, 1, 2] 0 upNormals None mat4Identity
           (vertexAt [0, 1, 2] offscreenPositions 0) (vertexAt [0, 1, 2] offscreenPositions (0 + 1))
           (vertexAt [0, 1, 2] offscreenPositions (0 + 2))
           (vertex 0 0 (1 / 2), vertex 0 5 (1 / 2), vertex 5 0 (1 / 2))"
proof -
  note S = renderTriangle_snap_first [OF example_in_range offscreen_projection,
      where normals = upNormals and uvs = None and modelMat = mat4Identity,
      unfolded litRenderer_fields]
  have sn: "snapVertexToGrid (vertex (- 1) (- 1) (1 / 2)) 5 = vertex 0 0 (1 / 2)"
    "snapVertexToGrid (vertex (- 1) 4 (1 / 2)) 5 = vertex 0 5 (1 / 2)"
    "snapVertexToGrid (vertex 4 (- 1) (1 / 2)) 5 = vertex 5 0 (1 / 2)"
    by (simp_all add: snapVertexToGrid_def mathRound_def)
  have cc: "clipCullRejects (vertex (- 1) (- 1) (1 / 2), vertex (- 1) 4 (1 / 2), vertex 4 (- 1) (1 / 2)) 2 2"
    "\<not> clipCullRejects (vertex 0 0 (1 / 2), vertex 0 5 (1 / 2), vertex 5 0 (1 / 2)) 2 2"
    by (simp_all add: clipCullRejects_def isTriangleClipped_def outOfBounds_def area2_def)
  show ?thesis
    using S cc example_in_range [of 0 0 0 0 "- 1" 0 1 0 0]
    by (simp add: sn)
qed

end
